theory Spec2Isabelle
  imports Main
begin

unbundle bit_operations_syntax

section \<open>Python values, exceptions and results\<close>

text \<open>
  The module \<^verbatim>\<open>awslp/helpers.py\<close> uses f-strings throughout, so it is Python 3
  source (3.6 or later); every builtin below has its Python 3 meaning. A Python \<^verbatim>\<open>str\<close>
  is modelled as a \<^typ>\<open>string\<close> (code points up to 255 only), a \<^verbatim>\<open>bytes\<close> object as the
  list of its bytes, and a value that may be either carries its type as a tag, because
  Python 3 keeps the two apart at run time.
\<close>

datatype pyval = Str string | Bytes string | Integer int

text \<open>
  The exceptions the code can raise. An exception is the left summand of the result,
  so every \<^verbatim>\<open>raise\<close> and every failing builtin is a branch of the model.
\<close>

datatype pyerror =
    TypeError
  | OverflowError
  | ZeroDivisionError
  | ValueError string
  | IndexError
  | KeyError string
  | AttributeError
  | EOFError
  | StructError
  | BinasciiError
  | HTTPError int
  | ParseError
  | MfaRequiredException string

type_synonym 'a result = "pyerror + 'a"

definition bind :: "'a result \<Rightarrow> ('a \<Rightarrow> 'b result) \<Rightarrow> 'b result" where
  "bind r f = (case r of Inl e \<Rightarrow> Inl e | Inr v \<Rightarrow> f v)"

subsection \<open>Strings\<close>

text \<open>\<^verbatim>\<open>s.startswith(p)\<close>.\<close>

fun startswith :: "string \<Rightarrow> string \<Rightarrow> bool" where
  "startswith s [] = True"
| "startswith [] (p # ps) = False"
| "startswith (c # cs) (p # ps) = (c = p \<and> startswith cs ps)"

text \<open>\<^verbatim>\<open>sub in s\<close> on two strings: \<^verbatim>\<open>sub\<close> occurs in \<^verbatim>\<open>s\<close> at some position.\<close>

fun str_contains :: "string \<Rightarrow> string \<Rightarrow> bool" where
  "str_contains sub [] = (sub = [])"
| "str_contains sub (c # cs) = (startswith (c # cs) sub \<or> str_contains sub cs)"

subsection \<open>\<^verbatim>\<open>int(s)\<close> on a string\<close>

text \<open>
  \<^verbatim>\<open>int\<close> strips white space (tab to carriage return, space, NEL and the no-break
  space), reads an optional sign and then decimal digits, where single underscores may
  separate digits. Anything else raises \<^verbatim>\<open>ValueError\<close>; the message of that error
  quotes the literal, which the model leaves out. The interpreter's configurable limit
  on the number of digits (Python 3.11) is not modelled.
\<close>

definition is_space :: "char \<Rightarrow> bool" where
  "is_space c = (let n = (of_char c :: nat) in
     (9 \<le> n \<and> n \<le> 13) \<or> n = 32 \<or> n = 133 \<or> n = 160)"

definition strip :: "string \<Rightarrow> string" where
  "strip s = rev (dropWhile is_space (rev (dropWhile is_space s)))"

definition is_digit :: "char \<Rightarrow> bool" where
  "is_digit c = (let n = (of_char c :: nat) in 48 \<le> n \<and> n \<le> 57)"

definition digit_val :: "char \<Rightarrow> nat" where
  "digit_val c = of_char c - 48"

fun int_digits :: "nat \<Rightarrow> string \<Rightarrow> nat option" where
  "int_digits acc [] = Some acc"
| "int_digits acc (c # cs) =
     (if is_digit c then int_digits (10 * acc + digit_val c) cs
      else if c = CHR ''_'' then
        (case cs of
           [] \<Rightarrow> None
         | d # _ \<Rightarrow> if is_digit d then int_digits acc cs else None)
      else None)"

definition int_unsigned :: "string \<Rightarrow> nat option" where
  "int_unsigned s =
     (case s of
        [] \<Rightarrow> None
      | c # _ \<Rightarrow> if is_digit c then int_digits 0 s else None)"

definition invalid_literal :: pyerror where
  "invalid_literal = ValueError ''invalid literal for int() with base 10''"

definition py_int :: "string \<Rightarrow> int result" where
  "py_int s =
     (let t = strip s;
          (neg, u) = (case t of
                        c # cs \<Rightarrow> if c = CHR ''-'' then (True, cs)
                                  else if c = CHR ''+'' then (False, cs)
                                  else (False, t)
                      | [] \<Rightarrow> (False, t))
      in case int_unsigned u of
           None \<Rightarrow> Inl invalid_literal
         | Some n \<Rightarrow> Inr (if neg then - int n else int n))"

section \<open>HTTP\<close>

text \<open>
  A request as \<^verbatim>\<open>session.post\<close> and \<^verbatim>\<open>session.get\<close> receive it, and the part of the
  response the code reads (\<^verbatim>\<open>body\<close> is \<^verbatim>\<open>response.text\<close>). The session (the server behind
  it) is a parameter of every function that sends a request: a function from the request
  to its response. Connection failures are outside the model.
\<close>

datatype http_verb = GET | POST

record request =
  verb :: http_verb
  url :: string
  data :: "(string \<times> pyval) list"
  verify :: bool

record response =
  status_code :: int
  body :: string

type_synonym session = "request \<Rightarrow> response"

definition LASTPASS_SERVER :: string where
  "LASTPASS_SERVER = ''https://lastpass.com''"

definition should_verify :: "string \<Rightarrow> bool" where
  "should_verify lastpass_server = str_contains LASTPASS_SERVER lastpass_server"

subsection \<open>\<^verbatim>\<open>lastpass_iterations\<close>\<close>

definition iterations_request :: "string \<Rightarrow> pyval \<Rightarrow> request" where
  "iterations_request lastpass_server username =
     \<lparr> verb = POST,
       url = lastpass_server @ ''/iterations.php'',
       data = [(''email'', username)],
       verify = should_verify lastpass_server \<rparr>"

definition lastpass_iterations :: "session \<Rightarrow> string \<Rightarrow> pyval \<Rightarrow> int result" where
  "lastpass_iterations session lastpass_server username =
     (let iterations = 5000;
          response = session (iterations_request lastpass_server username)
      in if status_code response = 200 then py_int (body response)
         else Inr iterations)"

section \<open>Form scraping\<close>

subsection \<open>The two patterns of \<^verbatim>\<open>extract_form\<close>\<close>

text \<open>
  Both regular expressions are built from literals and from \<^verbatim>\<open>"([^"]*)"\<close>, a quoted
  value. After the opening quote, \<^verbatim>\<open>[^"]*\<close> can only stop at the next quote character
  (a shorter match is not followed by a quote, and the class excludes the quote itself),
  so a match at a given position is unique and the matcher needs no backtracking there.
\<close>

definition dquote :: char where
  "dquote = CHR 0x22"

text \<open>A literal at the start of the input: the rest of the input when it is there.\<close>

fun match_lit :: "string \<Rightarrow> string \<Rightarrow> string option" where
  "match_lit [] s = Some s"
| "match_lit (p # ps) [] = None"
| "match_lit (p # ps) (c # cs) = (if p = c then match_lit ps cs else None)"

text \<open>\<^verbatim>\<open>([^"]*)"\<close>: the group and the rest of the input after the closing quote.\<close>

definition match_quoted :: "string \<Rightarrow> (string \<times> string) option" where
  "match_quoted s =
     (case dropWhile (\<lambda>c. c \<noteq> dquote) s of
        [] \<Rightarrow> None
      | _ # r \<Rightarrow> Some (takeWhile (\<lambda>c. c \<noteq> dquote) s, r))"

text \<open>\<^verbatim>\<open>key="([^"]*)"\<close>.\<close>

definition match_attr :: "string \<Rightarrow> string \<Rightarrow> (string \<times> string) option" where
  "match_attr key s =
     (case match_lit (key @ ''='' @ [dquote]) s of
        None \<Rightarrow> None
      | Some r \<Rightarrow> match_quoted r)"

text \<open>
  \<^verbatim>\<open>name="([^"]*)" (id="([^"]*)" )?value="([^"]*)"\<close> at the start of the input. The
  optional group is greedy: the matcher first tries the pattern with it and, when that
  fails, without it. The result holds the four groups as \<^verbatim>\<open>findall\<close> returns them (a
  group that took no part is the empty string) and the rest of the input.
\<close>

type_synonym field_match = "string \<times> string \<times> string \<times> string"

definition match_value :: "string \<Rightarrow> string \<Rightarrow> string \<Rightarrow> string \<Rightarrow> (field_match \<times> string) option" where
  "match_value g1 g2 g3 s =
     (case match_attr ''value'' s of
        None \<Rightarrow> None
      | Some (g4, r) \<Rightarrow> Some ((g1, g2, g3, g4), r))"

definition match_id_value :: "string \<Rightarrow> string \<Rightarrow> (field_match \<times> string) option" where
  "match_id_value g1 s =
     (case match_attr ''id'' s of
        None \<Rightarrow> None
      | Some (g3, r) \<Rightarrow>
          (case match_lit '' '' r of
             None \<Rightarrow> None
           | Some r' \<Rightarrow> match_value g1 (''id='' @ [dquote] @ g3 @ [dquote] @ '' '') g3 r'))"

definition match_field :: "string \<Rightarrow> (field_match \<times> string) option" where
  "match_field s =
     (case match_attr ''name'' s of
        None \<Rightarrow> None
      | Some (g1, r) \<Rightarrow>
          (case match_lit '' '' r of
             None \<Rightarrow> None
           | Some r' \<Rightarrow>
               (case match_id_value g1 r' of
                  Some m \<Rightarrow> Some m
                | None \<Rightarrow> match_value g1 [] [] r')))"

text \<open>
  \<^verbatim>\<open>re.findall\<close>: the matches from left to right, none overlapping another. After a
  match the scan goes on behind it, otherwise one character further.
\<close>

function findall_fields :: "string \<Rightarrow> field_match list" where
  "findall_fields [] = []"
| "findall_fields (c # cs) =
     (case match_field (c # cs) of
        Some (m, rest) \<Rightarrow> m # findall_fields rest
      | None \<Rightarrow> findall_fields cs)"
  by pat_completeness auto
termination
proof (relation "measure length")
  show "wf (measure length)" by simp
next
  fix c :: char and cs :: string
  show "(cs, c # cs) \<in> measure length" by simp
next
  fix c :: char and cs :: string and x :: "field_match \<times> string" and m rest
  assume hit: "match_field (c # cs) = Some x" and x: "(m, rest) = x"
  have lit: "length r \<le> length s" if "match_lit p s = Some r" for p s r
    using that by (induction p s rule: match_lit.induct) (auto split: if_splits)
  have quoted: "length r < length s" if "match_quoted s = Some (g, r)" for s g r
  proof -
    from that obtain d where "dropWhile (\<lambda>c. c \<noteq> dquote) s = d # r"
      by (auto simp: match_quoted_def split: list.splits)
    moreover have "length (dropWhile (\<lambda>c. c \<noteq> dquote) s) \<le> length s"
      by (rule length_dropWhile_le)
    ultimately show ?thesis by simp
  qed
  have attr: "length r < length s" if "match_attr key s = Some (g, r)" for key s g r
  proof -
    from that obtain r0 where a: "match_lit (key @ ''='' @ [dquote]) s = Some r0"
        and b: "match_quoted r0 = Some (g, r)"
      by (auto simp: match_attr_def split: option.splits)
    show ?thesis using lit [OF a] quoted [OF b] by simp
  qed
  have val: "length t < length s" if "match_value a b d s = Some (m', t)" for a b d s m' t
    using that attr by (auto simp: match_value_def split: option.splits)
  have idval: "length t < length s" if "match_id_value a s = Some (m', t)" for a s m' t
  proof -
    from that obtain g3 q q' b where i: "match_attr ''id'' s = Some (g3, q)"
        and j: "match_lit '' '' q = Some q'" and k: "match_value a b g3 q' = Some (m', t)"
      by (auto simp: match_id_value_def split: option.splits)
    show ?thesis using attr [OF i] lit [OF j] val [OF k] by simp
  qed
  from hit x obtain g1 r r' where r: "match_attr ''name'' (c # cs) = Some (g1, r)"
      and r': "match_lit '' '' r = Some r'"
      and alt: "match_id_value g1 r' = Some (m, rest) \<or> match_value g1 [] [] r' = Some (m, rest)"
    by (auto simp: match_field_def split: option.splits)
  from alt have "length rest < length r'" using idval val by blast
  then have "length rest < length (c # cs)"
    using attr [OF r] lit [OF r'] by simp
  then show "(rest, c # cs) \<in> measure length" by simp
qed

text \<open>\<^verbatim>\<open>re.search(r'action="([^"]*)"', html)\<close>: group 1 of the leftmost match.\<close>

fun search_action :: "string \<Rightarrow> string option" where
  "search_action [] = None"
| "search_action (c # cs) =
     (case match_attr ''action'' (c # cs) of
        Some (g, _) \<Rightarrow> Some g
      | None \<Rightarrow> search_action cs)"

subsection \<open>\<^verbatim>\<open>extract_form\<close>\<close>

record html_form =
  action :: string
  fields' :: "string \<rightharpoonup> string"

text \<open>
  Every match is a tuple of four groups, so the test \<^verbatim>\<open>len(match) > 2\<close> always holds:
  each match stores its fourth group under its first, a later one replacing an earlier
  one of the same name.
\<close>

definition store_match :: "field_match \<Rightarrow> (string \<rightharpoonup> string) \<Rightarrow> (string \<rightharpoonup> string)" where
  "store_match m fs = (case m of (g1, g2, g3, g4) \<Rightarrow> fs(g1 \<mapsto> g4))"

definition extract_form :: "string \<Rightarrow> html_form" where
  "extract_form html =
     (let matches = findall_fields html;
          fs = fold store_match matches Map.empty
      in \<lparr> action = (case search_action html of Some g \<Rightarrow> g | None \<Rightarrow> []),
           fields' = fs \<rparr>)"

section \<open>The SAML token\<close>

subsection \<open>Lines, the heading pattern, \<^verbatim>\<open>str.replace\<close>\<close>

definition LF :: char where
  "LF = CHR 0x0A"

definition CR :: char where
  "CR = CHR 0x0D"

text \<open>
  \<^verbatim>\<open>str.splitlines()\<close>: the line boundaries are line feed, carriage return (with a line
  feed after it as one boundary), vertical tab, form feed, the file, group and record
  separators and NEL; the boundaries are dropped, and a boundary at the very end opens
  no further line.
\<close>

definition is_linebreak :: "char \<Rightarrow> bool" where
  "is_linebreak c = (let n = (of_char c :: nat) in
     (10 \<le> n \<and> n \<le> 13) \<or> (28 \<le> n \<and> n \<le> 30) \<or> n = 133)"

fun splitlines :: "string \<Rightarrow> string list" where
  "splitlines [] = []"
| "splitlines (c # cs) =
     (if is_linebreak c then
        (case cs of
           [] \<Rightarrow> [[]]
         | d # ds \<Rightarrow> if c = CR \<and> d = LF then [] # splitlines ds else [] # splitlines cs)
      else
        (case splitlines cs of
           [] \<Rightarrow> [[c]]
         | l # ls \<Rightarrow> (c # l) # ls))"

text \<open>
  \<^verbatim>\<open>(.*)\<close> followed by a literal: the dot takes any character but the line feed, and the
  star is greedy, so the group is the longest stretch of the input that the literal
  follows.
\<close>

fun greedy_upto :: "string \<Rightarrow> string \<Rightarrow> string option" where
  "greedy_upto lit [] = (if lit = [] then Some [] else None)"
| "greedy_upto lit (c # cs) =
     (case (if c = LF then None else greedy_upto lit cs) of
        Some g \<Rightarrow> Some (c # g)
      | None \<Rightarrow> if startswith (c # cs) lit then Some [] else None)"

text \<open>\<^verbatim>\<open>re.search(r'<h2>(.*)</h2>', line)\<close>: group 1 of the leftmost match.\<close>

fun search_h2 :: "string \<Rightarrow> string option" where
  "search_h2 [] = None"
| "search_h2 (c # cs) =
     (case (case match_lit ''<h2>'' (c # cs) of
              None \<Rightarrow> None
            | Some r \<Rightarrow> greedy_upto ''</h2>'' r) of
        Some g \<Rightarrow> Some g
      | None \<Rightarrow> search_h2 cs)"

text \<open>
  \<^verbatim>\<open>s.replace(old, new)\<close>: every occurrence of \<^verbatim>\<open>old\<close>, from the left, none overlapping
  another. For an empty \<^verbatim>\<open>old\<close> Python puts \<^verbatim>\<open>new\<close> before every character and at the end.
\<close>

function replace_from :: "string \<Rightarrow> string \<Rightarrow> string \<Rightarrow> string" where
  "replace_from old new s =
     (if old = [] \<or> s = [] then s
      else if startswith s old then new @ replace_from old new (drop (length old) s)
      else hd s # replace_from old new (tl s))"
  by pat_completeness auto
termination
  by (relation "measure (\<lambda>(old, new, s). length s)") auto

definition replace :: "string \<Rightarrow> string \<Rightarrow> string \<Rightarrow> string" where
  "replace old new s =
     (if old = [] then concat (map (\<lambda>c. new @ [c]) s) @ new
      else replace_from old new s)"

subsection \<open>\<^verbatim>\<open>get_saml_token\<close>\<close>

text \<open>
  \<^verbatim>\<open>HTMLParser().unescape\<close> and \<^verbatim>\<open>base64.b64decode\<close> are library functions and
  parameters of the model. Both can raise: \<^verbatim>\<open>unescape\<close> no longer exists in Python 3.9
  (an \<^verbatim>\<open>AttributeError\<close>), and \<^verbatim>\<open>b64decode\<close> rejects wrong padding.
\<close>

definition saml_request :: "string \<Rightarrow> string \<Rightarrow> request" where
  "saml_request lastpass_server saml_cfg_id =
     \<lparr> verb = GET,
       url = lastpass_server @ ''/saml/launch/cfg/'' @ saml_cfg_id,
       data = [],
       verify = should_verify lastpass_server \<rparr>"

text \<open>The loop over the lines of the page; the last heading found wins.\<close>

fun scrape_error :: "(string \<Rightarrow> string result) \<Rightarrow> string list \<Rightarrow> string \<Rightarrow> string result" where
  "scrape_error unescape [] error = Inr error"
| "scrape_error unescape (line # lines) error =
     (case search_h2 line of
        None \<Rightarrow> scrape_error unescape lines error
      | Some g \<Rightarrow>
          bind (unescape g) (\<lambda>msg.
            let msg = replace ''<br/>'' [LF] msg;
                msg = replace ''<b>'' [] msg;
                msg = replace ''</b>'' [] msg
            in scrape_error unescape lines ([LF] @ msg)))"

definition get_saml_token ::
  "(string \<Rightarrow> string result) \<Rightarrow> (string \<Rightarrow> pyval result) \<Rightarrow> session \<Rightarrow> string \<Rightarrow> string \<Rightarrow>
   pyval result" where
  "get_saml_token unescape b64decode session lastpass_server saml_cfg_id =
     (let response = session (saml_request lastpass_server saml_cfg_id);
          form = extract_form (body response)
      in if action form = [] then
           bind (scrape_error unescape (splitlines (body response)) [])
             (\<lambda>error. Inl (ValueError (''Unable to find SAML ACS'' @ error)))
         else
           (case fields' form ''SAMLResponse'' of
              None \<Rightarrow> Inl (KeyError ''SAMLResponse'')
            | Some v \<Rightarrow> b64decode v))"

section \<open>XML\<close>

text \<open>
  An element as \<^verbatim>\<open>xml.etree.ElementTree\<close> holds it: the tag (a namespace in braces before
  the local name), the attributes, the text before the first child (\<^verbatim>\<open>None\<close> when there is
  none) and the children. The parser \<^verbatim>\<open>ElementTree.fromstring\<close> is a parameter of the
  functions that call it.
\<close>

datatype xml = Element (tag: string) (attrib: "(string \<times> string) list")
  (elem_text: "string option") (children: "xml list")

text \<open>\<^verbatim>\<open>elem.get(key)\<close>.\<close>

definition et_get :: "xml \<Rightarrow> string \<Rightarrow> string option" where
  "et_get elem key = map_of (attrib elem) key"

text \<open>\<^verbatim>\<open>elem.find(name)\<close> for a plain tag name: the first child with that tag.\<close>

definition et_find :: "xml \<Rightarrow> string \<Rightarrow> xml option" where
  "et_find elem name = find (\<lambda>c. tag c = name) (children elem)"

text \<open>The elements below an element in document order, the element itself left out.\<close>

fun descendants :: "xml \<Rightarrow> xml list" where
  "descendants (Element t a x cs) = concat (map (\<lambda>c. c # descendants c) cs)"

subsection \<open>\<^verbatim>\<open>get_saml_aws_roles\<close>\<close>

definition saml_ns :: string where
  "saml_ns = ''urn:oasis:names:tc:SAML:2.0:assertion''"

definition role_attrib :: string where
  "role_attrib = ''https://aws.amazon.com/SAML/Attributes/Role''"

text \<open>A prefixed name of the path, resolved with the namespace map.\<close>

definition saml :: "string \<Rightarrow> string" where
  "saml name = ''{'' @ saml_ns @ ''}'' @ name"

text \<open>
  \<^verbatim>\<open>doc.findall(".//saml:Attribute[@Name='...']/saml:AttributeValue", namespace)\<close>: the
  \<^verbatim>\<open>Attribute\<close> elements below the root in document order, those with the \<^verbatim>\<open>Name\<close> kept,
  and of each of them the \<^verbatim>\<open>AttributeValue\<close> children.
\<close>

definition findall_role_values :: "xml \<Rightarrow> xml list" where
  "findall_role_values doc =
     concat (map (\<lambda>e. filter (\<lambda>v. tag v = saml ''AttributeValue'') (children e))
       (filter (\<lambda>e. tag e = saml ''Attribute'' \<and> et_get e ''Name'' = Some role_attrib)
         (descendants doc)))"

text \<open>\<^verbatim>\<open>s.split(sep, maxsplit)\<close> for a separator of one character.\<close>

fun split :: "char \<Rightarrow> nat \<Rightarrow> string \<Rightarrow> string list" where
  "split sep 0 s = [s]"
| "split sep (Suc n) s =
     (case dropWhile (\<lambda>c. c \<noteq> sep) s of
        [] \<Rightarrow> [s]
      | _ # r \<Rightarrow> takeWhile (\<lambda>c. c \<noteq> sep) s # split sep n r)"

text \<open>A list comprehension whose element expression can raise.\<close>

fun comprehension :: "('a \<Rightarrow> 'b result) \<Rightarrow> 'a list \<Rightarrow> 'b list result" where
  "comprehension f [] = Inr []"
| "comprehension f (x # xs) =
     bind (f x) (\<lambda>y. bind (comprehension f xs) (\<lambda>ys. Inr (y # ys)))"

definition get_saml_aws_roles :: "(string \<Rightarrow> xml result) \<Rightarrow> string \<Rightarrow> string list list result" where
  "get_saml_aws_roles fromstring assertion =
     bind (fromstring assertion) (\<lambda>doc.
       let attribs = findall_role_values doc
       in comprehension
            (\<lambda>a. case elem_text a of
                    None \<Rightarrow> Inl AttributeError
                  | Some t \<Rightarrow> Inr (split CHR '','' 2 t))
            attribs)"

section \<open>Role selection\<close>

text \<open>
  The console is passed through explicitly: the lines still to be read from standard
  input, and the lines and prompts written so far. \<^verbatim>\<open>input(prompt)\<close> writes the prompt,
  then reads a line, and raises \<^verbatim>\<open>EOFError\<close> when the input has ended. A role is the list
  that \<^verbatim>\<open>get_saml_aws_roles\<close> returns for one node.
\<close>

type_synonym role = "string list"

text \<open>\<^verbatim>\<open>xs[i]\<close>: a negative index counts from the end.\<close>

definition getitem :: "'a list \<Rightarrow> int \<Rightarrow> 'a result" where
  "getitem xs i =
     (if 0 \<le> i \<and> i < int (length xs) then Inr (xs ! nat i)
      else if i < 0 \<and> - int (length xs) \<le> i then Inr (xs ! nat (int (length xs) + i))
      else Inl IndexError)"

text \<open>\<^verbatim>\<open>str(n)\<close> for an integer.\<close>

fun str_nat :: "nat \<Rightarrow> string" where
  "str_nat n =
     (if n < 10 then [char_of (48 + n)]
      else str_nat (n div 10) @ [char_of (48 + n mod 10)])"

definition str_int :: "int \<Rightarrow> string" where
  "str_int i = (if i < 0 then CHR ''-'' # str_nat (nat (- i)) else str_nat (nat i))"

text \<open>The loop that prints the numbered list, from \<^verbatim>\<open>count\<close> on.\<close>

fun print_roles :: "int \<Rightarrow> role list \<Rightarrow> string list \<Rightarrow> unit result \<times> string list" where
  "print_roles count [] out = (Inr (), out)"
| "print_roles count (role # roles) out =
     (case getitem role 0 of
        Inl e \<Rightarrow> (Inl e, out)
      | Inr arn \<Rightarrow>
          print_roles (count + 1) roles (out @ [''  '' @ str_int count @ '') '' @ arn]))"

text \<open>
  The \<^verbatim>\<open>while\<close> loop: \<^verbatim>\<open>n\<close> is \<^verbatim>\<open>len(roles)\<close>. The result comes with the input left and
  the output so far.
\<close>

fun choice_loop ::
  "int \<Rightarrow> int \<Rightarrow> string list \<Rightarrow> string list \<Rightarrow> int result \<times> string list \<times> string list" where
  "choice_loop choice n [] out =
     (if choice < 1 \<or> choice > n + 1 then (Inl EOFError, [], out @ [''Choice: ''])
      else (Inr choice, [], out))"
| "choice_loop choice n (l # ls) out =
     (if choice < 1 \<or> choice > n + 1 then
        choice_loop (case py_int l of Inr v \<Rightarrow> v | Inl e \<Rightarrow> 0) n ls (out @ [''Choice: ''])
      else (Inr choice, l # ls, out))"

definition prompt_for_role ::
  "role list \<Rightarrow> string list \<Rightarrow> role result \<times> string list \<times> string list" where
  "prompt_for_role roles stdin =
     (if length roles = 1 then (getitem roles 0, stdin, [])
      else
        (case print_roles 1 roles [''Please select a role:''] of
           (Inl e, out) \<Rightarrow> (Inl e, stdin, out)
         | (Inr u, out) \<Rightarrow>
             (case choice_loop 0 (int (length roles)) stdin out of
                (Inl e, rest, out') \<Rightarrow> (Inl e, rest, out')
              | (Inr choice, rest, out') \<Rightarrow> (getitem roles (choice - 1), rest, out'))))"

section \<open>Key derivation\<close>

subsection \<open>Numbers\<close>

text \<open>
  In Python 3 the operator \<^verbatim>\<open>/\<close> is true division: on two integers it returns a
  \<^verbatim>\<open>float\<close>, also when the quotient is whole, and raises \<^verbatim>\<open>OverflowError\<close> when the
  quotient, rounded to the nearest double, is outside the range of a double. The code
  never reads the value of the float it gets, only \<^verbatim>\<open>range\<close> sees it, and \<^verbatim>\<open>range\<close>
  rejects every float; so the model keeps the type of the number and not the value of a
  float.
\<close>

datatype pynum = PyInt int | PyFloat

definition truediv :: "int \<Rightarrow> int \<Rightarrow> pynum result" where
  "truediv a b =
     (if b = 0 then Inl ZeroDivisionError
      else if (2 ^ 1024 - 2 ^ 970) * \<bar>b\<bar> \<le> \<bar>a\<bar> then Inl OverflowError
      else Inr PyFloat)"

text \<open>\<^verbatim>\<open>range(start, stop)\<close>, as the list of its values.\<close>

definition range' :: "int \<Rightarrow> pynum \<Rightarrow> int list result" where
  "range' start stop =
     (case stop of
        PyInt n \<Rightarrow> Inr [start .. n - 1]
      | PyFloat \<Rightarrow> Inl TypeError)"

subsection \<open>Bytes and strings\<close>

text \<open>
  \<^verbatim>\<open>hmac.new(key, None, hashlib.sha256)\<close> wants a key of bytes. The object it returns is
  modelled by that key: no message has been fed to it, and \<^verbatim>\<open>prf\<close> only ever copies it,
  feeds the copy one message and takes the digest, which is the HMAC-SHA256 of the
  message under the key. HMAC-SHA256 itself is a parameter of the model.
\<close>

type_synonym hmac_sha256 = "string \<Rightarrow> string \<Rightarrow> string"

definition hmac_new :: "pyval \<Rightarrow> string result" where
  "hmac_new key = (case key of Bytes k \<Rightarrow> Inr k | Str s \<Rightarrow> Inl TypeError | Integer i \<Rightarrow> Inl TypeError)"

definition prf' :: "hmac_sha256 \<Rightarrow> string \<Rightarrow> pyval \<Rightarrow> pyval result" where
  "prf' hmac hsh data' =
     (case data' of
        Bytes d \<Rightarrow> Inr (Bytes (hmac hsh d))
      | Str s \<Rightarrow> Inl TypeError
      | Integer i \<Rightarrow> Inl TypeError)"

text \<open>
  \<^verbatim>\<open>''.join(map(lambda x, y: chr(ord(x) ^ ord(y)), string_a, string_b))\<close>. The map stops
  with the shorter argument. The items of a \<^verbatim>\<open>str\<close> are characters; the items of
  \<^verbatim>\<open>bytes\<close> are integers in Python 3, and \<^verbatim>\<open>ord\<close> of an integer raises \<^verbatim>\<open>TypeError\<close>. The
  result of \<^verbatim>\<open>''.join\<close> is a \<^verbatim>\<open>str\<close>.
\<close>

definition xor_char :: "char \<Rightarrow> char \<Rightarrow> char" where
  "xor_char x y = char_of ((of_char x :: nat) XOR of_char y)"

fun xorbytes :: "pyval \<Rightarrow> pyval \<Rightarrow> pyval result" where
  "xorbytes (Str a) (Str b) = Inr (Str (map2 xor_char a b))"
| "xorbytes (Integer i) string_b = Inl TypeError"
| "xorbytes string_a (Integer i) = Inl TypeError"
| "xorbytes (Str a) (Bytes b) = (if a = [] \<or> b = [] then Inr (Str []) else Inl TypeError)"
| "xorbytes (Bytes a) (Str b) = (if a = [] \<or> b = [] then Inr (Str []) else Inl TypeError)"
| "xorbytes (Bytes a) (Bytes b) = (if a = [] \<or> b = [] then Inr (Str []) else Inl TypeError)"

text \<open>The operator \<^verbatim>\<open>+\<close>.\<close>

fun add :: "pyval \<Rightarrow> pyval \<Rightarrow> pyval result" where
  "add (Str a) (Str b) = Inr (Str (a @ b))"
| "add (Bytes a) (Bytes b) = Inr (Bytes (a @ b))"
| "add (Integer a) (Integer b) = Inr (Integer (a + b))"
| "add x y = Inl TypeError"

text \<open>\<^verbatim>\<open>struct.pack('>I', n)\<close>: four bytes, the most significant first.\<close>

definition pack_I :: "int \<Rightarrow> pyval result" where
  "pack_I n =
     (if 0 \<le> n \<and> n < 2 ^ 32
      then Inr (Bytes [char_of (n div 2 ^ 24), char_of (n div 2 ^ 16), char_of (n div 2 ^ 8),
             char_of n])
      else Inl StructError)"

text \<open>\<^verbatim>\<open>s[0:n]\<close>: a negative \<^verbatim>\<open>n\<close> counts from the end.\<close>

definition take_slice :: "'a list \<Rightarrow> int \<Rightarrow> 'a list" where
  "take_slice xs n = (if 0 \<le> n then take (nat n) xs else take (nat (int (length xs) + n)) xs)"

definition slice_to :: "pyval \<Rightarrow> int \<Rightarrow> pyval result" where
  "slice_to v n =
     (case v of
        Str s \<Rightarrow> Inr (Str (take_slice s n))
      | Bytes b \<Rightarrow> Inr (Bytes (take_slice b n))
      | Integer i \<Rightarrow> Inl TypeError)"

text \<open>\<^verbatim>\<open>binascii.hexlify\<close> and \<^verbatim>\<open>binascii.unhexlify\<close>.\<close>

definition hex_digit :: "nat \<Rightarrow> char" where
  "hex_digit n = ''0123456789abcdef'' ! n"

definition hexlify_bytes :: "string \<Rightarrow> string" where
  "hexlify_bytes bs =
     concat (map (\<lambda>c. [hex_digit (of_char c div 16), hex_digit (of_char c mod 16)]) bs)"

definition hexlify :: "pyval \<Rightarrow> pyval result" where
  "hexlify v =
     (case v of
        Bytes b \<Rightarrow> Inr (Bytes (hexlify_bytes b))
      | Str s \<Rightarrow> Inl TypeError
      | Integer i \<Rightarrow> Inl TypeError)"

definition hex_val :: "char \<Rightarrow> nat option" where
  "hex_val c =
     (let n = (of_char c :: nat)
      in if 48 \<le> n \<and> n \<le> 57 then Some (n - 48)
         else if 97 \<le> n \<and> n \<le> 102 then Some (n - 87)
         else if 65 \<le> n \<and> n \<le> 70 then Some (n - 55)
         else None)"

fun unhexlify_bytes :: "string \<Rightarrow> string option" where
  "unhexlify_bytes [] = Some []"
| "unhexlify_bytes [a] = None"
| "unhexlify_bytes (a # b # r) =
     (case (hex_val a, hex_val b, unhexlify_bytes r) of
        (Some h, Some l, Some bs) \<Rightarrow> Some (char_of (16 * h + l) # bs)
      | _ \<Rightarrow> None)"

definition unhexlify :: "pyval \<Rightarrow> pyval result" where
  "unhexlify v =
     (case v of
        Bytes h \<Rightarrow>
          (case unhexlify_bytes h of None \<Rightarrow> Inl BinasciiError | Some b \<Rightarrow> Inr (Bytes b))
      | Str s \<Rightarrow>
          (if \<exists>c \<in> set s. 128 \<le> (of_char c :: nat)
           then Inl (ValueError ''string argument should contain only ASCII characters'')
           else case unhexlify_bytes s of None \<Rightarrow> Inl BinasciiError | Some b \<Rightarrow> Inr (Bytes b))
      | Integer i \<Rightarrow> Inl TypeError)"

subsection \<open>\<^verbatim>\<open>pbkdf2\<close>\<close>

text \<open>
  The inner loop \<^verbatim>\<open>for _ in range(1, rounds)\<close> runs \<^verbatim>\<open>rounds - 1\<close> times, and not at all
  when \<^verbatim>\<open>rounds\<close> is 1 or less. Its state is \<^verbatim>\<open>hval\<close> and \<^verbatim>\<open>index\<close>; it leaves \<^verbatim>\<open>index\<close>.
\<close>

fun rounds_loop :: "hmac_sha256 \<Rightarrow> string \<Rightarrow> nat \<Rightarrow> pyval \<Rightarrow> pyval \<Rightarrow> pyval result" where
  "rounds_loop hmac hsh 0 hval index = Inr index"
| "rounds_loop hmac hsh (Suc n) hval index =
     bind (prf' hmac hsh hval) (\<lambda>hval.
     bind (xorbytes index hval) (\<lambda>index.
     rounds_loop hmac hsh n hval index))"

text \<open>The outer loop over the blocks, with \<^verbatim>\<open>key\<close> as its state.\<close>

fun blocks_loop ::
  "hmac_sha256 \<Rightarrow> string \<Rightarrow> pyval \<Rightarrow> int \<Rightarrow> int list \<Rightarrow> pyval \<Rightarrow> pyval result" where
  "blocks_loop hmac hsh salt rounds [] key = Inr key"
| "blocks_loop hmac hsh salt rounds (block # blocks) key =
     bind (pack_I (block + 1)) (\<lambda>packed.
     bind (add salt packed) (\<lambda>message.
     bind (prf' hmac hsh message) (\<lambda>hval.
     bind (rounds_loop hmac hsh (nat (rounds - 1)) hval hval) (\<lambda>index.
     bind (add key index) (\<lambda>key.
     blocks_loop hmac hsh salt rounds blocks key)))))"

text \<open>
  The function up to the slice \<^verbatim>\<open>key[0:length]\<close>, the raw derived key, and the whole
  function, which returns that key in hexadecimal.
\<close>

definition pbkdf2_key :: "hmac_sha256 \<Rightarrow> pyval \<Rightarrow> pyval \<Rightarrow> int \<Rightarrow> int \<Rightarrow> pyval result" where
  "pbkdf2_key hmac password salt rounds length' =
     (let key = Str []
      in bind (hmac_new password) (\<lambda>hsh.
         bind (truediv (length' + 31) 32) (\<lambda>stop.
         bind (range' 0 stop) (\<lambda>blocks.
         bind (blocks_loop hmac hsh salt rounds blocks key) (\<lambda>key.
         slice_to key length')))))"

definition pbkdf2 :: "hmac_sha256 \<Rightarrow> pyval \<Rightarrow> pyval \<Rightarrow> int \<Rightarrow> int \<Rightarrow> pyval result" where
  "pbkdf2 hmac password salt rounds length' =
     bind (pbkdf2_key hmac password salt rounds length') hexlify"

definition lastpass_login_hash :: "hmac_sha256 \<Rightarrow> pyval \<Rightarrow> pyval \<Rightarrow> int \<Rightarrow> pyval result" where
  "lastpass_login_hash hmac username password iterations =
     bind (bind (pbkdf2 hmac password username iterations 32) unhexlify) (\<lambda>key.
     bind (pbkdf2 hmac key password 1 32) (\<lambda>result. Inr result))"

section \<open>Login\<close>

definition login_request :: "string \<Rightarrow> (string \<times> pyval) list \<Rightarrow> request" where
  "login_request lastpass_server params =
     \<lparr> verb = POST,
       url = lastpass_server @ ''/login.php'',
       data = params,
       verify = should_verify lastpass_server \<rparr>"

text \<open>\<^verbatim>\<open>response.raise_for_status()\<close>: a status from 400 to 599 is an error.\<close>

definition raise_for_status :: "response \<Rightarrow> unit result" where
  "raise_for_status response =
     (if 400 \<le> status_code response \<and> status_code response < 600
      then Inl (HTTPError (status_code response)) else Inr ())"

text \<open>
  \<^verbatim>\<open>lastpass_login\<close> from its second statement on, for the iteration count that
  \<^verbatim>\<open>lastpass_iterations\<close> returned, and the whole function. The parameters of the
  request are built first, the login hash among them (line 114); then the request is sent
  (line 121), its status checked, the response parsed and its \<^verbatim>\<open>error\<close> element looked
  for (lines 123 to 134). The f-string writes a missing \<^verbatim>\<open>message\<close> as \<^verbatim>\<open>None\<close>.
\<close>

definition login_with_iterations ::
  "hmac_sha256 \<Rightarrow> (string \<Rightarrow> xml result) \<Rightarrow> session \<Rightarrow> string \<Rightarrow> pyval \<Rightarrow> pyval \<Rightarrow>
   pyval option \<Rightarrow> int \<Rightarrow> unit result" where
  "login_with_iterations hmac fromstring session lastpass_server username password otp iterations =
     bind (lastpass_login_hash hmac username password iterations) (\<lambda>hash.
       let params = [(''method'', Str ''web''), (''xml'', Str ''1''), (''username'', username),
                     (''hash'', hash), (''iterations'', Integer iterations)];
           params = (case otp of None \<Rightarrow> params | Some v \<Rightarrow> params @ [(''otp'', v)]);
           response = session (login_request lastpass_server params)
       in bind (raise_for_status response) (\<lambda>u.
          bind (fromstring (body response)) (\<lambda>doc.
            case et_find doc ''error'' of
              None \<Rightarrow> Inr ()
            | Some error \<Rightarrow>
                (let cause = et_get error ''cause''
                 in if cause = Some ''googleauthrequired''
                    then Inl (MfaRequiredException ''Need MFA for this login'')
                    else let reason = et_get error ''message''
                         in Inl (ValueError (''Could not login to lastpass: '' @
                              (case reason of None \<Rightarrow> ''None'' | Some r \<Rightarrow> r)))))))"

definition lastpass_login ::
  "hmac_sha256 \<Rightarrow> (string \<Rightarrow> xml result) \<Rightarrow> session \<Rightarrow> string \<Rightarrow> pyval \<Rightarrow> pyval \<Rightarrow>
   pyval option \<Rightarrow> unit result" where
  "lastpass_login hmac fromstring session lastpass_server username password otp =
     bind (lastpass_iterations session lastpass_server username)
       (login_with_iterations hmac fromstring session lastpass_server username password otp)"

section \<open>Notation and examples\<close>

text \<open>The text of an attribute with its value in double quotes.\<close>

definition attr_text :: "string \<Rightarrow> string \<Rightarrow> string" where
  "attr_text key v = key @ ''='' @ [dquote] @ v @ [dquote]"

text \<open>
  Stand-ins for the parameters of the model in closed examples: a session that answers
  every request with one response, a parser that returns a given document, an
  \<^verbatim>\<open>unescape\<close> for text without entities, and a decoder and a message authentication
  code for the examples that never call them.
\<close>

definition reply :: "int \<Rightarrow> string \<Rightarrow> session" where
  "reply status page request = \<lparr> status_code = status, body = page \<rparr>"

definition parsed_as :: "xml \<Rightarrow> string \<Rightarrow> xml result" where
  "parsed_as doc assertion = Inr doc"

definition unchanged :: "string \<Rightarrow> string result" where
  "unchanged s = Inr s"

definition no_decoding :: "string \<Rightarrow> pyval result" where
  "no_decoding s = Inr (Bytes s)"

definition no_mac :: hmac_sha256 where
  "no_mac key message = []"

text \<open>
  A server that answers the request for the iteration count with status 200 and a given
  count, and every other request with status 200 and a given page.
\<close>

definition lastpass_replies :: "string \<Rightarrow> string \<Rightarrow> session" where
  "lastpass_replies count page request =
     \<lparr> status_code = 200,
       body = (if url request = LASTPASS_SERVER @ ''/iterations.php'' then count else page) \<rparr>"

text \<open>The login response that asks for a one-time password, as text and parsed.\<close>

definition mfa_required_page :: string where
  \<open>mfa_required_page = ''<response><error cause="googleauthrequired"/></response>''\<close>

definition mfa_required :: xml where
  "mfa_required =
     Element ''response'' [] None
       [Element ''error'' [(''cause'', ''googleauthrequired'')] None []]"

text \<open>The page and the assertion that the specification gives as examples.\<close>

definition example_page :: string where
  \<open>example_page =
     ''<form action="https://x/acs"><input name="SAMLResponse" value="abc123"/></form>''\<close>

definition two_roles :: xml where
  "two_roles =
     Element (saml ''Assertion'') [] None
       [Element (saml ''AttributeStatement'') [] None
         [Element (saml ''Attribute'') [(''Name'', role_attrib)] None
           [Element (saml ''AttributeValue'') []
              (Some ''arn:aws:iam::111:role/A,arn:aws:iam::111:saml-provider/IdP'') [],
            Element (saml ''AttributeValue'') []
              (Some ''arn:aws:iam::111:role/B,arn:aws:iam::111:saml-provider/IdP'') []]]]"

section \<open>Properties\<close>

subsection \<open>Strings\<close>

lemma startswith_iff: "startswith s p \<longleftrightarrow> (\<exists>r. s = p @ r)"
  by (induction s p rule: startswith.induct) auto


subsection \<open>Certificate verification\<close>



subsection \<open>Results and searches in lists\<close>

lemma bind_simps:
  "bind (Inl e) f = Inl e" "bind (Inr v) f = f v"
  by (simp_all add: bind_def)

subsection \<open>Iteration discovery\<close>

text \<open>
  A response with status 200 whose body is not an integer: \<^verbatim>\<open>int\<close> raises
  \<^verbatim>\<open>ValueError\<close>, nothing catches it, and no count comes back, the default included.
\<close>

theorem iterations_unparsable_body_raises:
  "lastpass_iterations (reply 200 ''abc'') ''https://lastpass.com'' (Str ''user'')
   = Inl (ValueError ''invalid literal for int() with base 10'')"
  by (simp add: lastpass_iterations_def reply_def py_int_def strip_def is_space_def int_unsigned_def
      is_digit_def invalid_literal_def)

text \<open>
  Claim C4, as the code has it. For every status other than 200 the count is the
  default 5000, without an error, and \<^verbatim>\<open>lastpass_login\<close> goes on with 5000. For status
  200 and a body that \<^verbatim>\<open>int\<close> accepts the count is the integer read, and
  \<^verbatim>\<open>lastpass_login\<close> goes on with it. For status 200 and a body that \<^verbatim>\<open>int\<close> rejects,
  \<^verbatim>\<open>lastpass_iterations\<close> raises the \<^verbatim>\<open>ValueError\<close> of \<^verbatim>\<open>int\<close>, and so does
  \<^verbatim>\<open>lastpass_login\<close>: there is no fallback to 5000 on that path.
\<close>

theorem lastpass_iterations_cases:
  "(status_code (session (iterations_request lastpass_server username)) \<noteq> 200 \<longrightarrow>
      lastpass_iterations session lastpass_server username = Inr 5000 \<and>
      lastpass_login hmac fromstring session lastpass_server username password otp =
        login_with_iterations hmac fromstring session lastpass_server username password otp 5000) \<and>
   (\<forall>n. status_code (session (iterations_request lastpass_server username)) = 200 \<and>
        py_int (body (session (iterations_request lastpass_server username))) = Inr n \<longrightarrow>
      lastpass_iterations session lastpass_server username = Inr n \<and>
      lastpass_login hmac fromstring session lastpass_server username password otp =
        login_with_iterations hmac fromstring session lastpass_server username password otp n) \<and>
   (\<forall>e. status_code (session (iterations_request lastpass_server username)) = 200 \<and>
        py_int (body (session (iterations_request lastpass_server username))) = Inl e \<longrightarrow>
      lastpass_iterations session lastpass_server username = Inl e \<and>
      lastpass_login hmac fromstring session lastpass_server username password otp = Inl e)"
  by (simp add: lastpass_iterations_def lastpass_login_def bind_simps Let_def)

text \<open>A 503 gives the default; a 200 with the body \<^verbatim>\<open>100100\<close> gives 100100.\<close>

theorem lastpass_iterations_cases_witness:
  "lastpass_iterations (reply 503 ''Service Unavailable'')
     ''https://lastpass.com'' (Str ''user'') = Inr 5000 \<and>
   lastpass_iterations (reply 200 ''100100'')
     ''https://lastpass.com'' (Str ''user'') = Inr 100100"
proof -
  have parsed: "py_int ''100100'' = Inr 100100"
    by (simp add: py_int_def strip_def is_space_def int_unsigned_def is_digit_def digit_val_def)
  show ?thesis
    using parsed
      lastpass_iterations_cases
        [of "reply 503 ''Service Unavailable''"
          "''https://lastpass.com''" "Str ''user''"]
      lastpass_iterations_cases
        [of "reply 200 ''100100''"
          "''https://lastpass.com''" "Str ''user''"]
    by (simp add: reply_def)
qed

subsection \<open>Role selection\<close>

text \<open>
  The loop on its first line of input: an integer from 1 to \<^verbatim>\<open>len(roles) + 1\<close> ends it,
  anything else (no integer, or one outside that range) makes it ask again.
\<close>

lemma choice_loop_out_of_range:
  "choice < 1 \<or> choice > n + 1 \<Longrightarrow> choice_loop choice n stdin out = choice_loop 0 n stdin out"
  by (cases stdin) auto

lemma choice_loop_accepts:
  "py_int l = Inr k \<Longrightarrow> 1 \<le> k \<Longrightarrow> k \<le> n + 1 \<Longrightarrow>
   choice_loop 0 n (l # ls) out = (Inr k, ls, out @ [''Choice: ''])"
  by (cases ls) auto

lemma choice_loop_asks_again:
  assumes "py_int l = Inl e \<or> (\<exists>k. py_int l = Inr k \<and> (k < 1 \<or> k > n + 1))"
  shows "choice_loop 0 n (l # ls) out = choice_loop 0 n ls (out @ [''Choice: ''])"
proof (cases "py_int l")
  case (Inl e')
  then show ?thesis by simp
next
  case (Inr k)
  with assms have "k < 1 \<or> k > n + 1" by auto
  then have "choice_loop k n ls (out @ [''Choice: '']) = choice_loop 0 n ls (out @ [''Choice: ''])"
    by (rule choice_loop_out_of_range)
  with Inr show ?thesis by simp
qed

text \<open>
  Claim C6. A list of one role is returned as it is: no line is read and nothing is
  written. With more roles the loop asks again while the choice is below 1 or above
  \<^verbatim>\<open>len(roles) + 1\<close>, so it also stops at \<^verbatim>\<open>len(roles) + 1\<close>, one past the last role:
  with two roles and the answer 3 the loop ends, and \<^verbatim>\<open>roles[2]\<close> raises \<^verbatim>\<open>IndexError\<close>.
\<close>

theorem single_role_and_choice_past_the_end:
  "prompt_for_role [r] stdin = (Inr r, stdin, []) \<and>
   prompt_for_role [[''role/A'', ''idp''], [''role/B'', ''idp'']] [''3''] =
     (Inl IndexError, [],
      [''Please select a role:'', ''  1) role/A'', ''  2) role/B'', ''Choice: ''])"
proof
  show "prompt_for_role [r] stdin = (Inr r, stdin, [])"
    by (simp add: prompt_for_role_def getitem_def)
  show "prompt_for_role [[''role/A'', ''idp''], [''role/B'', ''idp'']] [''3''] =
     (Inl IndexError, [],
      [''Please select a role:'', ''  1) role/A'', ''  2) role/B'', ''Choice: ''])"
    by code_simp
qed

subsection \<open>Key derivation\<close>

lemma truediv_32: "truediv a 32 = Inl OverflowError \<or> truediv a 32 = Inr PyFloat"
  by (simp add: truediv_def)

lemma pbkdf2_key_raises:
  "pbkdf2_key hmac password salt rounds length' = Inl TypeError \<or>
   pbkdf2_key hmac password salt rounds length' = Inl OverflowError"
proof (cases password)
  case (Bytes k)
  from truediv_32 [of "length' + 31"] show ?thesis
    by (auto simp: pbkdf2_key_def hmac_new_def Bytes bind_simps range'_def)
qed (simp_all add: pbkdf2_key_def hmac_new_def bind_simps)

text \<open>
  Claim C1. The claim wants \<^verbatim>\<open>length\<close> bytes of PBKDF2-HMAC-SHA256 output for every
  input with at least one round and at least one byte. The code computes the number of
  blocks as \<^verbatim>\<open>(length + 31) / 32\<close>, which is a float in Python 3, and \<^verbatim>\<open>range\<close> refuses a
  float: every call ends in \<^verbatim>\<open>TypeError\<close> (or, for an astronomically large \<^verbatim>\<open>length\<close>,
  in the \<^verbatim>\<open>OverflowError\<close> of the division) before the first block is computed. No call
  returns a key; the call with password \<^verbatim>\<open>password\<close>, salt \<^verbatim>\<open>salt\<close>, one round and 32
  bytes raises \<^verbatim>\<open>TypeError\<close>.
\<close>

theorem pbkdf2_never_returns:
  "(pbkdf2 hmac password salt rounds length' = Inl TypeError \<or>
    pbkdf2 hmac password salt rounds length' = Inl OverflowError) \<and>
   pbkdf2 hmac (Bytes ''password'') (Bytes ''salt'') 1 32 = Inl TypeError"
proof
  from pbkdf2_key_raises [of hmac password salt rounds length']
  show "pbkdf2 hmac password salt rounds length' = Inl TypeError \<or>
    pbkdf2 hmac password salt rounds length' = Inl OverflowError"
    by (auto simp: pbkdf2_def bind_simps)
  show "pbkdf2 hmac (Bytes ''password'') (Bytes ''salt'') 1 32 = Inl TypeError"
    by (simp add: pbkdf2_def pbkdf2_key_def hmac_new_def truediv_def range'_def bind_simps)
qed

text \<open>A call for 32 bytes, as the login hash makes it, ends in \<^verbatim>\<open>TypeError\<close>.\<close>

lemma pbkdf2_32_raises: "pbkdf2 hmac password salt rounds 32 = Inl TypeError"
  by (cases password)
     (simp_all add: pbkdf2_def pbkdf2_key_def hmac_new_def truediv_def range'_def bind_simps)

text \<open>Hexadecimal: decoding what \<^verbatim>\<open>hexlify\<close> wrote gives the bytes back.\<close>

lemma hex_val_hex_digit: "n < 16 \<Longrightarrow> hex_val (hex_digit n) = Some n"
proof -
  have "\<forall>n \<in> {0..<16}. hex_val (hex_digit n) = Some n"
    by code_simp
  then show "n < 16 \<Longrightarrow> hex_val (hex_digit n) = Some n" by simp
qed

lemma unhexlify_hexlify_bytes: "unhexlify_bytes (hexlify_bytes b) = Some b"
proof (induction b)
  case Nil
  then show ?case by (simp add: hexlify_bytes_def)
next
  case (Cons c cs)
  have hi: "(of_char c :: nat) div 16 < 16"
    by (simp add: less_mult_imp_div_less)
  have lo: "(of_char c :: nat) mod 16 < 16" by simp
  have again: "char_of (16 * ((of_char c :: nat) div 16) + of_char c mod 16) = c"
    by simp
  from Cons have "unhexlify_bytes (hexlify_bytes cs) = Some cs" .
  then show ?case
    using hex_val_hex_digit [OF hi] hex_val_hex_digit [OF lo] again
    by (simp add: hexlify_bytes_def)
qed

lemma unhexlify_hexlify: "bind (hexlify (Bytes k)) unhexlify = Inr (Bytes k)"
  by (simp add: hexlify_def unhexlify_def bind_simps unhexlify_hexlify_bytes)

text \<open>
  Claim C2. The claim wants the login hash to be the second of two derivations: a
  32-byte key from the password with the user name as salt and the given iteration
  count, then the hash from that key with the password as salt and one round.
  \<^verbatim>\<open>lastpass_login_hash\<close> is written as these two calls of \<^verbatim>\<open>pbkdf2\<close> (lines 80 and 81),
  but the first call, like every call of \<^verbatim>\<open>pbkdf2\<close> for 32 bytes, ends in the
  \<^verbatim>\<open>TypeError\<close> of \<^verbatim>\<open>range\<close> on line 66. So for every user name, password and iteration
  count no key comes out of the first stage, \<^verbatim>\<open>unhexlify\<close> and the second stage are never
  reached, and \<^verbatim>\<open>lastpass_login_hash\<close> raises \<^verbatim>\<open>TypeError\<close> where the claim wants a hash:
  so it does for the user \<^verbatim>\<open>user@example.com\<close> with the password \<^verbatim>\<open>secret\<close> and 5000
  iterations.
\<close>

theorem login_hash_never_produced:
  "pbkdf2 hmac password username iterations 32 = Inl TypeError \<and>
   lastpass_login_hash hmac username password iterations = Inl TypeError \<and>
   lastpass_login_hash no_mac (Bytes ''user@example.com'') (Bytes ''secret'') 5000 =
     Inl TypeError"
proof (intro conjI)
  show first: "pbkdf2 hmac password username iterations 32 = Inl TypeError"
    by (rule pbkdf2_32_raises)
  then show "lastpass_login_hash hmac username password iterations = Inl TypeError"
    by (simp add: lastpass_login_hash_def bind_simps)
  show "lastpass_login_hash no_mac (Bytes ''user@example.com'') (Bytes ''secret'') 5000 =
     Inl TypeError"
    by (simp add: lastpass_login_hash_def pbkdf2_def pbkdf2_key_def hmac_new_def truediv_def
        range'_def bind_simps)
qed

subsection \<open>Login\<close>

lemma lastpass_iterations_result:
  "lastpass_iterations session lastpass_server username = Inl invalid_literal \<or>
   (\<exists>n. lastpass_iterations session lastpass_server username = Inr n)"
proof (cases "py_int (body (session (iterations_request lastpass_server username)))")
  case (Inl e)
  then have "e = invalid_literal"
    by (auto simp: py_int_def Let_def split: prod.splits option.splits)
  with Inl show ?thesis
    by (simp add: lastpass_iterations_def Let_def)
next
  case (Inr n)
  then show ?thesis
    by (simp add: lastpass_iterations_def Let_def)
qed

text \<open>
  Claim C3. The claim wants \<^verbatim>\<open>lastpass_login\<close> to raise the MFA error for a login
  response with an \<^verbatim>\<open>error\<close> element of cause \<^verbatim>\<open>googleauthrequired\<close>, the general error
  with the server's message for any other \<^verbatim>\<open>error\<close> element, and to return without an
  error when there is none. The code has these three branches (lines 126 to 134), but
  it computes the login hash (line 114) before it sends the login request (line 121),
  and that computation ends in \<^verbatim>\<open>TypeError\<close> for every input. So \<^verbatim>\<open>lastpass_login\<close>
  raises whatever \<^verbatim>\<open>lastpass_iterations\<close> raised, and \<^verbatim>\<open>TypeError\<close> otherwise: its result
  depends neither on the login response nor on the parser; it is \<^verbatim>\<open>TypeError\<close> or the
  \<^verbatim>\<open>ValueError\<close> of \<^verbatim>\<open>int\<close>, never the MFA error and never a return. For a server that
  answers the iteration request with 5000 and the login request with a response whose
  root has the one child \<^verbatim>\<open>error\<close> of cause \<^verbatim>\<open>googleauthrequired\<close>, which
  \<^verbatim>\<open>doc.find('error')\<close> would find, the call raises \<^verbatim>\<open>TypeError\<close> and not the MFA error.
\<close>

theorem lastpass_login_raises_before_the_request:
  "lastpass_login hmac fromstring session lastpass_server username password otp =
     bind (lastpass_iterations session lastpass_server username) (\<lambda>iterations. Inl TypeError) \<and>
   (lastpass_login hmac fromstring session lastpass_server username password otp = Inl TypeError \<or>
    lastpass_login hmac fromstring session lastpass_server username password otp =
      Inl invalid_literal) \<and>
   et_find mfa_required ''error'' =
     Some (Element ''error'' [(''cause'', ''googleauthrequired'')] None []) \<and>
   lastpass_login no_mac (parsed_as mfa_required) (lastpass_replies ''5000'' mfa_required_page)
     LASTPASS_SERVER (Bytes ''user@example.com'') (Bytes ''secret'') None = Inl TypeError"
proof (intro conjI)
  have hash: "\<And>n. lastpass_login_hash hmac username password n = Inl TypeError"
    by (simp add: lastpass_login_hash_def pbkdf2_32_raises bind_simps)
  show stops: "lastpass_login hmac fromstring session lastpass_server username password otp =
     bind (lastpass_iterations session lastpass_server username) (\<lambda>iterations. Inl TypeError)"
    by (cases "lastpass_iterations session lastpass_server username")
       (simp_all add: lastpass_login_def login_with_iterations_def hash bind_simps)
  from lastpass_iterations_result [of session lastpass_server username]
  show "lastpass_login hmac fromstring session lastpass_server username password otp = Inl TypeError \<or>
    lastpass_login hmac fromstring session lastpass_server username password otp =
      Inl invalid_literal"
    by (auto simp: stops bind_simps)
  show "et_find mfa_required ''error'' =
     Some (Element ''error'' [(''cause'', ''googleauthrequired'')] None [])"
    by (simp add: et_find_def mfa_required_def)
  have count: "py_int ''5000'' = Inr 5000"
    by (simp add: py_int_def strip_def is_space_def int_unsigned_def is_digit_def digit_val_def)
  have "lastpass_iterations (lastpass_replies ''5000'' mfa_required_page) LASTPASS_SERVER
      (Bytes ''user@example.com'') = Inr 5000"
    by (simp add: lastpass_iterations_def lastpass_replies_def iterations_request_def count)
  moreover have "lastpass_login_hash no_mac (Bytes ''user@example.com'') (Bytes ''secret'') 5000 =
      Inl TypeError"
    by (simp add: lastpass_login_hash_def pbkdf2_32_raises bind_simps)
  ultimately show "lastpass_login no_mac (parsed_as mfa_required)
      (lastpass_replies ''5000'' mfa_required_page)
      LASTPASS_SERVER (Bytes ''user@example.com'') (Bytes ''secret'') None = Inl TypeError"
    by (simp add: lastpass_login_def login_with_iterations_def bind_simps)
qed

subsection \<open>Round counts below one\<close>

text \<open>
  A call with no rounds at all: what it raises is the \<^verbatim>\<open>TypeError\<close> of \<^verbatim>\<open>range\<close>, as for
  any other round count, and not an error about its parameters.
\<close>

theorem pbkdf2_zero_rounds_raises_TypeError:
  "pbkdf2 no_mac (Bytes ''password'') (Bytes ''salt'') 0 32 = Inl TypeError"
  by (simp add: pbkdf2_def pbkdf2_key_def hmac_new_def truediv_def range'_def bind_simps)

lemma blocks_loop_rounds:
  "rounds < 1 \<Longrightarrow>
   blocks_loop hmac hsh salt rounds blocks key = blocks_loop hmac hsh salt 1 blocks key"
proof (induction blocks arbitrary: key)
  case Nil
  then show ?case by simp
next
  case (Cons block blocks)
  then have "blocks_loop hmac hsh salt rounds blocks = blocks_loop hmac hsh salt 1 blocks"
    by (intro ext) simp
  with Cons.prems show ?case by simp
qed

text \<open>
  Claim C9, as the code has it. \<^verbatim>\<open>pbkdf2\<close> checks neither the round count nor the
  length, and the code has no error for a bad parameter. A round count below 1 is
  taken as it comes: \<^verbatim>\<open>range(1, rounds)\<close> is empty, the inner loop leaves each block at
  its first value, and the loop over the blocks and the whole call do exactly what they
  do for one round.
\<close>

theorem pbkdf2_rounds_below_one:
  "rounds < 1 \<Longrightarrow>
     rounds_loop hmac hsh (nat (rounds - 1)) hval index = Inr index \<and>
     blocks_loop hmac hsh salt rounds blocks key = blocks_loop hmac hsh salt 1 blocks key \<and>
     pbkdf2 hmac password salt rounds length' = pbkdf2 hmac password salt 1 length'"
  by (simp add: blocks_loop_rounds pbkdf2_def pbkdf2_key_def)

text \<open>No rounds and minus three rounds, against one round.\<close>

theorem pbkdf2_rounds_below_one_witness:
  "rounds_loop no_mac ''key'' (nat (0 - 1)) (Bytes ''u1'') (Bytes ''u1'') = Inr (Bytes ''u1'') \<and>
   blocks_loop no_mac ''key'' (Bytes ''salt'') (- 3) [0, 1] (Str []) =
     blocks_loop no_mac ''key'' (Bytes ''salt'') 1 [0, 1] (Str []) \<and>
   pbkdf2 no_mac (Bytes ''password'') (Bytes ''salt'') 0 32 =
     pbkdf2 no_mac (Bytes ''password'') (Bytes ''salt'') 1 32"
proof -
  have zero: "(0::int) < 1" and minus: "(- 3::int) < 1" by simp_all
  show ?thesis
    using pbkdf2_rounds_below_one [where rounds = 0 and hmac = no_mac and hsh = "''key''"
        and hval = "Bytes ''u1''" and index = "Bytes ''u1''" and salt = "Bytes ''salt''"
        and password = "Bytes ''password''" and length' = 32, OF zero]
      pbkdf2_rounds_below_one [where rounds = "- 3" and hmac = no_mac and hsh = "''key''"
        and salt = "Bytes ''salt''" and blocks = "[0, 1]" and key = "Str []", OF minus]
    by simp
qed

subsection \<open>Roles of the assertion\<close>

lemma comprehension_texts:
  "\<forall>v \<in> set vs. elem_text v \<noteq> None \<Longrightarrow>
   comprehension (\<lambda>a. case elem_text a of None \<Rightarrow> Inl AttributeError | Some t \<Rightarrow> Inr (f t)) vs
     = Inr (map (\<lambda>v. f (the (elem_text v))) vs)"
  by (induction vs) (auto simp: bind_simps)

lemma dropWhile_no_sep: "sep \<notin> set a \<Longrightarrow> dropWhile (\<lambda>c. c \<noteq> sep) a = []"
  by (induction a) auto

lemma takeWhile_no_sep: "sep \<notin> set a \<Longrightarrow> takeWhile (\<lambda>c. c \<noteq> sep) a = a"
  by (induction a) auto

lemma dropWhile_at_sep: "sep \<notin> set a \<Longrightarrow> dropWhile (\<lambda>c. c \<noteq> sep) (a @ sep # r) = sep # r"
  by (induction a) auto

lemma takeWhile_at_sep: "sep \<notin> set a \<Longrightarrow> takeWhile (\<lambda>c. c \<noteq> sep) (a @ sep # r) = a"
  by (induction a) auto

lemma split_no_sep: "sep \<notin> set a \<Longrightarrow> split sep n a = [a]"
  by (cases n) (simp_all add: dropWhile_no_sep)

lemma split_at_sep:
  "sep \<notin> set a \<Longrightarrow> split sep (Suc n) (a @ sep # r) = a # split sep n r"
  by (simp add: dropWhile_at_sep takeWhile_at_sep)

lemma split_two:
  "sep \<notin> set a \<Longrightarrow> sep \<notin> set b \<Longrightarrow>
     split sep 2 a = [a] \<and>
     split sep 2 (a @ sep # b) = [a, b] \<and>
     split sep 2 (a @ sep # b @ sep # c) = [a, b, c]"
  by (simp add: numeral_2_eq_2 split_at_sep split_no_sep del: split.simps(2))

lemma findall_role_values_set:
  "v \<in> set (findall_role_values doc) \<longleftrightarrow>
     (\<exists>e \<in> set (descendants doc). tag e = saml ''Attribute'' \<and>
        et_get e ''Name'' = Some role_attrib \<and>
        v \<in> set (children e) \<and> tag v = saml ''AttributeValue'')"
  by (auto simp: findall_role_values_def)

lemma two_roles_result: "get_saml_aws_roles (parsed_as two_roles) assertion =
     Inr [[''arn:aws:iam::111:role/A'', ''arn:aws:iam::111:saml-provider/IdP''],
          [''arn:aws:iam::111:role/B'', ''arn:aws:iam::111:saml-provider/IdP'']]"
  by (simp add: get_saml_aws_roles_def parsed_as_def two_roles_def findall_role_values_def et_get_def
      bind_simps numeral_2_eq_2)

lemma three_items_result:
  "get_saml_aws_roles
     (parsed_as
        (Element (saml ''Assertion'') [] None
          [Element (saml ''Attribute'') [(''Name'', role_attrib)] None
            [Element (saml ''AttributeValue'') [] (Some ''role,idp,more,text'') []]]))
     assertion
   = Inr [[''role'', ''idp'', ''more,text'']]"
  by (simp add: get_saml_aws_roles_def parsed_as_def findall_role_values_def et_get_def
      bind_simps numeral_2_eq_2)

lemma comprehension_missing_text:
  "\<exists>v \<in> set vs. elem_text v = None \<Longrightarrow>
   comprehension (\<lambda>a. case elem_text a of None \<Rightarrow> Inl AttributeError | Some t \<Rightarrow> Inr (f t)) vs
     = Inl AttributeError"
proof (induction vs)
  case Nil
  then show ?case by simp
next
  case (Cons v vs)
  show ?case
  proof (cases "elem_text v")
    case None
    then show ?thesis by (simp add: bind_simps)
  next
    case (Some t)
    with Cons.prems have "\<exists>v \<in> set vs. elem_text v = None" by auto
    with Cons.IH Some show ?thesis by (simp add: bind_simps)
  qed
qed

text \<open>
  Claim C5. The claim wants every entry to be the pair of role and principal, with
  what follows the second comma left out, and the docstring of \<^verbatim>\<open>get_saml_aws_roles\<close>
  promises a list of such pairs. When the assertion parses, the code returns one entry
  for every \<^verbatim>\<open>AttributeValue\<close> child of every \<^verbatim>\<open>Attribute\<close> element below the root whose
  \<^verbatim>\<open>Name\<close> is the role attribute, in the order of the path (with one such \<^verbatim>\<open>Attribute\<close>:
  its \<^verbatim>\<open>AttributeValue\<close> children in their order), and the entry of a node is the list
  \<^verbatim>\<open>text.split(',', 2)\<close>. The 2 there counts the cuts, not the items: a text with one
  comma gives role and principal, but a text with more commas gives three items, the
  third being everything after the second comma, and a text with no comma gives one
  item; a node without text raises \<^verbatim>\<open>AttributeError\<close>. On the example of two nodes the
  result is the two pairs in their order; for a node with the text
  \<^verbatim>\<open>role,idp,more,text\<close> the entry is the three items \<^verbatim>\<open>role\<close>, \<^verbatim>\<open>idp\<close> and \<^verbatim>\<open>more,text\<close>,
  not the pair.
\<close>

theorem get_saml_aws_roles_entries:
  "(fromstring assertion = Inr doc \<and>
      (\<forall>v \<in> set (findall_role_values doc). elem_text v \<noteq> None) \<longrightarrow>
      get_saml_aws_roles fromstring assertion =
        Inr (map (\<lambda>v. split CHR '','' 2 (the (elem_text v))) (findall_role_values doc))) \<and>
   (fromstring assertion = Inr doc \<and>
      (\<exists>v \<in> set (findall_role_values doc). elem_text v = None) \<longrightarrow>
      get_saml_aws_roles fromstring assertion = Inl AttributeError) \<and>
   (\<forall>v. v \<in> set (findall_role_values doc) \<longleftrightarrow>
      (\<exists>e \<in> set (descendants doc). tag e = saml ''Attribute'' \<and>
         et_get e ''Name'' = Some role_attrib \<and>
         v \<in> set (children e) \<and> tag v = saml ''AttributeValue'')) \<and>
   (\<forall>e. filter (\<lambda>e. tag e = saml ''Attribute'' \<and> et_get e ''Name'' = Some role_attrib)
          (descendants doc) = [e] \<longrightarrow>
      findall_role_values doc = filter (\<lambda>v. tag v = saml ''AttributeValue'') (children e)) \<and>
   (\<forall>a b c. CHR '','' \<notin> set a \<and> CHR '','' \<notin> set b \<longrightarrow>
      split CHR '','' 2 a = [a] \<and>
      split CHR '','' 2 (a @ CHR '','' # b) = [a, b] \<and>
      split CHR '','' 2 (a @ CHR '','' # b @ CHR '','' # c) = [a, b, c]) \<and>
   get_saml_aws_roles (parsed_as two_roles) assertion =
     Inr [[''arn:aws:iam::111:role/A'', ''arn:aws:iam::111:saml-provider/IdP''],
          [''arn:aws:iam::111:role/B'', ''arn:aws:iam::111:saml-provider/IdP'']] \<and>
   get_saml_aws_roles
     (parsed_as
        (Element (saml ''Assertion'') [] None
          [Element (saml ''Attribute'') [(''Name'', role_attrib)] None
            [Element (saml ''AttributeValue'') [] (Some ''role,idp,more,text'') []]]))
     assertion
   = Inr [[''role'', ''idp'', ''more,text'']]"
proof -
  have parsed: "fromstring assertion = Inr doc \<and>
      (\<forall>v \<in> set (findall_role_values doc). elem_text v \<noteq> None) \<longrightarrow>
      get_saml_aws_roles fromstring assertion =
        Inr (map (\<lambda>v. split CHR '','' 2 (the (elem_text v))) (findall_role_values doc))"
    by (simp add: get_saml_aws_roles_def bind_simps comprehension_texts)
  have no_text: "fromstring assertion = Inr doc \<and>
      (\<exists>v \<in> set (findall_role_values doc). elem_text v = None) \<longrightarrow>
      get_saml_aws_roles fromstring assertion = Inl AttributeError"
    by (simp add: get_saml_aws_roles_def bind_simps comprehension_missing_text)
  have nodes: "\<forall>v. v \<in> set (findall_role_values doc) \<longleftrightarrow>
      (\<exists>e \<in> set (descendants doc). tag e = saml ''Attribute'' \<and>
         et_get e ''Name'' = Some role_attrib \<and>
         v \<in> set (children e) \<and> tag v = saml ''AttributeValue'')"
    by (simp only: findall_role_values_set) simp
  have one: "\<forall>e. filter (\<lambda>e. tag e = saml ''Attribute'' \<and> et_get e ''Name'' = Some role_attrib)
          (descendants doc) = [e] \<longrightarrow>
      findall_role_values doc = filter (\<lambda>v. tag v = saml ''AttributeValue'') (children e)"
    by (simp add: findall_role_values_def)
  have pieces: "\<forall>a b c. CHR '','' \<notin> set a \<and> CHR '','' \<notin> set b \<longrightarrow>
      split CHR '','' 2 a = [a] \<and>
      split CHR '','' 2 (a @ CHR '','' # b) = [a, b] \<and>
      split CHR '','' 2 (a @ CHR '','' # b @ CHR '','' # c) = [a, b, c]"
    using split_two [of "CHR '',''"] by blast
  show ?thesis
    by (intro conjI parsed no_text nodes one pieces two_roles_result three_items_result)
qed

text \<open>The example of two nodes again, and a text with three commas.\<close>

theorem get_saml_aws_roles_entries_witness:
  "map elem_text (findall_role_values two_roles) =
     [Some ''arn:aws:iam::111:role/A,arn:aws:iam::111:saml-provider/IdP'',
      Some ''arn:aws:iam::111:role/B,arn:aws:iam::111:saml-provider/IdP''] \<and>
   get_saml_aws_roles (parsed_as two_roles) ''<Assertion/>'' =
     Inr (map (\<lambda>v. split CHR '','' 2 (the (elem_text v))) (findall_role_values two_roles)) \<and>
   split CHR '','' 2 (''role'' @ CHR '','' # ''idp'' @ CHR '','' # ''more,text'') =
     [''role'', ''idp'', ''more,text'']"
proof -
  note T = get_saml_aws_roles_entries
    [where fromstring = "parsed_as two_roles" and assertion = "''<Assertion/>''"
      and doc = two_roles]
  have found: "findall_role_values two_roles =
      [Element (saml ''AttributeValue'') []
         (Some ''arn:aws:iam::111:role/A,arn:aws:iam::111:saml-provider/IdP'') [],
       Element (saml ''AttributeValue'') []
         (Some ''arn:aws:iam::111:role/B,arn:aws:iam::111:saml-provider/IdP'') []]"
    by (simp add: two_roles_def findall_role_values_def et_get_def)
  have commas: "CHR '','' \<notin> set ''role''" "CHR '','' \<notin> set ''idp''" by simp_all
  have "map elem_text (findall_role_values two_roles) =
     [Some ''arn:aws:iam::111:role/A,arn:aws:iam::111:saml-provider/IdP'',
      Some ''arn:aws:iam::111:role/B,arn:aws:iam::111:saml-provider/IdP'']"
    by (simp add: found)
  moreover have "get_saml_aws_roles (parsed_as two_roles) ''<Assertion/>'' =
     Inr (map (\<lambda>v. split CHR '','' 2 (the (elem_text v))) (findall_role_values two_roles))"
    using T [THEN conjunct1] by (simp add: found parsed_as_def)
  moreover have "split CHR '','' 2 (''role'' @ CHR '','' # ''idp'' @ CHR '','' # ''more,text'') =
     [''role'', ''idp'', ''more,text'']"
    using T [THEN conjunct2, THEN conjunct2, THEN conjunct2, THEN conjunct2, THEN conjunct1,
        rule_format, of "''role''" "''idp''" "''more,text''"] commas
    by blast
  ultimately show ?thesis by blast
qed

subsection \<open>Form scraping\<close>

lemma match_lit_eq:
  "match_lit p s = (if startswith s p then Some (drop (length p) s) else None)"
  by (induction p s rule: match_lit.induct) auto

lemma startswith_append: "startswith (p @ r) p"
  by (simp add: startswith_iff)









lemma match_quoted_at: "dquote \<notin> set v \<Longrightarrow> match_quoted (v @ dquote # r) = Some (v, r)"
  by (simp add: match_quoted_def dropWhile_at_sep takeWhile_at_sep)

lemma match_attr_at:
  assumes "lit = key @ ''='' @ [dquote]" and "dquote \<notin> set v"
  shows "match_attr key (lit @ v @ dquote # r) = Some (v, r)"
proof -
  have "match_lit lit (lit @ v @ dquote # r) = Some (v @ dquote # r)"
    by (simp only: match_lit_eq startswith_append if_True) simp
  with assms show ?thesis
    by (simp add: match_attr_def match_quoted_at)
qed

lemma match_attr_none:
  assumes "lit = key @ ''='' @ [dquote]" and "\<not> startswith s lit"
  shows "match_attr key s = None"
  using assms by (simp add: match_attr_def match_lit_eq)

lemma search_action_first:
  assumes lit: "lit = ''action'' @ ''='' @ [dquote]" and v: "dquote \<notin> set v"
  shows "\<forall>i < length pre. \<not> startswith (drop i (pre @ lit @ v @ dquote # post)) lit \<Longrightarrow>
    search_action (pre @ lit @ v @ dquote # post) = Some v"
proof (induction pre)
  case Nil
  from lit obtain c l where "lit = c # l" by simp
  then have s: "lit @ v @ dquote # post = c # (l @ v @ dquote # post)" by simp
  have "match_attr ''action'' (lit @ v @ dquote # post) = Some (v, post)"
    using lit v by (rule match_attr_at)
  then show ?case
    by (simp only: append_Nil s search_action.simps option.case prod.case)
next
  case (Cons c cs)
  have "0 < length (c # cs)" by simp
  with Cons.prems have "\<not> startswith (drop 0 ((c # cs) @ lit @ v @ dquote # post)) lit"
    by blast
  then have "\<not> startswith (c # cs @ lit @ v @ dquote # post) lit"
    by simp
  with lit have none: "match_attr ''action'' (c # cs @ lit @ v @ dquote # post) = None"
    by (rule match_attr_none)
  have "\<forall>i < length cs. \<not> startswith (drop i (cs @ lit @ v @ dquote # post)) lit"
  proof (intro allI impI)
    fix i assume "i < length cs"
    then have "Suc i < length (c # cs)" by simp
    with Cons.prems have "\<not> startswith (drop (Suc i) ((c # cs) @ lit @ v @ dquote # post)) lit"
      by blast
    then show "\<not> startswith (drop i (cs @ lit @ v @ dquote # post)) lit"
      by simp
  qed
  with Cons.IH have "search_action (cs @ lit @ v @ dquote # post) = Some v"
    by blast
  with none show ?case by (simp only: append_Cons search_action.simps option.case)
qed

lemma search_action_none:
  assumes lit: "lit = ''action'' @ ''='' @ [dquote]"
  shows "\<not> str_contains lit html \<Longrightarrow> search_action html = None"
proof (induction html)
  case Nil
  then show ?case by simp
next
  case (Cons c cs)
  then have no: "\<not> startswith (c # cs) lit" and "\<not> str_contains lit cs"
    by simp_all
  with Cons.IH have "search_action cs = None" by blast
  moreover from lit no have "match_attr ''action'' (c # cs) = None"
    by (rule match_attr_none)
  ultimately show ?case
    by (simp only: search_action.simps option.case)
qed

lemma fold_store_match:
  "fold store_match ms m = m ++ map_of (rev (map (\<lambda>(g1, g2, g3, g4). (g1, g4)) ms))"
proof (induction ms arbitrary: m)
  case Nil
  then show ?case by simp
next
  case (Cons x xs)
  obtain g1 g2 g3 g4 where x: "x = (g1, g2, g3, g4)" by (cases x) auto
  have "fold store_match (x # xs) m = fold store_match xs (store_match x m)" by simp
  also have "\<dots> = store_match x m ++ map_of (rev (map (\<lambda>(g1, g2, g3, g4). (g1, g4)) xs))"
    by (rule Cons.IH)
  also have "\<dots> = m ++ map_of (rev (map (\<lambda>(g1, g2, g3, g4). (g1, g4)) (x # xs)))"
    by (rule ext) (simp add: x store_match_def map_add_def split: option.splits)
  finally show ?case .
qed

lemma example_matches: "findall_fields example_page = [(''SAMLResponse'', [], [], ''abc123'')]"
  by code_simp

lemma example_action: "search_action example_page = Some ''https://x/acs''"
  by code_simp


lemma match_field_none:
  assumes "lit = ''name'' @ ''='' @ [dquote]" and "\<not> startswith s lit"
  shows "match_field s = None"
  using match_attr_none [OF assms] by (simp add: match_field_def)

lemma findall_fields_skip:
  assumes lit: "lit = ''name'' @ ''='' @ [dquote]"
  shows "\<forall>i < length pre. \<not> startswith (drop i (pre @ s)) lit \<Longrightarrow>
    findall_fields (pre @ s) = findall_fields s"
proof (induction pre)
  case Nil
  then show ?case by simp
next
  case (Cons c cs)
  have "0 < length (c # cs)" by simp
  with Cons.prems have "\<not> startswith (drop 0 ((c # cs) @ s)) lit"
    by blast
  then have "\<not> startswith (c # cs @ s) lit" by simp
  with lit have none: "match_field (c # cs @ s) = None"
    by (rule match_field_none)
  have "\<forall>i < length cs. \<not> startswith (drop i (cs @ s)) lit"
  proof (intro allI impI)
    fix i assume "i < length cs"
    then have "Suc i < length (c # cs)" by simp
    with Cons.prems have "\<not> startswith (drop (Suc i) ((c # cs) @ s)) lit"
      by blast
    then show "\<not> startswith (drop i (cs @ s)) lit" by simp
  qed
  with Cons.IH have "findall_fields (cs @ s) = findall_fields s" by blast
  with none show ?case by simp
qed

lemma findall_fields_hit:
  "match_field s = Some (m, rest) \<Longrightarrow> findall_fields s = m # findall_fields rest"
proof (cases s)
  case Nil
  assume "match_field s = Some (m, rest)"
  with Nil show ?thesis
    by (simp add: match_field_def match_attr_def)
next
  case (Cons c cs)
  assume "match_field s = Some (m, rest)"
  with Cons show ?thesis by simp
qed

lemma match_lit_space: "match_lit '' '' ('' '' @ r) = Some r"
  by simp

lemma match_value_at:
  "dquote \<notin> set v \<Longrightarrow>
   match_value g1 g2 g3 (attr_text ''value'' v @ rest) = Some ((g1, g2, g3, v), rest)"
  using match_attr_at [of "''value'' @ ''='' @ [dquote]" "''value''" v rest]
  by (simp add: match_value_def attr_text_def)

lemma match_field_plain:
  assumes "dquote \<notin> set n" and "dquote \<notin> set v"
  shows "match_field (attr_text ''name'' n @ '' '' @ attr_text ''value'' v @ rest)
    = Some ((n, [], [], v), rest)"
proof -
  have name: "match_attr ''name'' (attr_text ''name'' n @ '' '' @ attr_text ''value'' v @ rest)
      = Some (n, '' '' @ attr_text ''value'' v @ rest)"
    using match_attr_at [of "''name'' @ ''='' @ [dquote]" "''name''" n, OF _ assms(1)]
    by (simp add: attr_text_def)
  have no_id: "match_id_value n (attr_text ''value'' v @ rest) = None"
    by (simp add: match_id_value_def match_attr_def attr_text_def)
  show ?thesis
    using name no_id match_value_at [OF assms(2)]
    by (simp add: match_field_def)
qed

lemma match_field_with_id:
  assumes "dquote \<notin> set n" and "dquote \<notin> set d" and "dquote \<notin> set v"
  shows "match_field
      (attr_text ''name'' n @ '' '' @ attr_text ''id'' d @ '' '' @ attr_text ''value'' v @ rest)
    = Some ((n, attr_text ''id'' d @ '' '', d, v), rest)"
proof -
  have name: "match_attr ''name''
      (attr_text ''name'' n @ '' '' @ attr_text ''id'' d @ '' '' @ attr_text ''value'' v @ rest)
      = Some (n, '' '' @ attr_text ''id'' d @ '' '' @ attr_text ''value'' v @ rest)"
    using match_attr_at [of "''name'' @ ''='' @ [dquote]" "''name''" n, OF _ assms(1)]
    by (simp add: attr_text_def)
  have ident: "match_attr ''id'' (attr_text ''id'' d @ '' '' @ attr_text ''value'' v @ rest)
      = Some (d, '' '' @ attr_text ''value'' v @ rest)"
    using match_attr_at [of "''id'' @ ''='' @ [dquote]" "''id''" d, OF _ assms(2)]
    by (simp add: attr_text_def)
  have "match_id_value n (attr_text ''id'' d @ '' '' @ attr_text ''value'' v @ rest)
      = Some ((n, attr_text ''id'' d @ '' '', d, v), rest)"
    using ident match_value_at [OF assms(3), of n "attr_text ''id'' d @ '' ''" d rest]
    by (simp add: match_id_value_def attr_text_def)
  with name show ?thesis
    by (simp add: match_field_def)
qed

lemma fields_of_matches:
  "fields' (extract_form html) =
     map_of (rev (map (\<lambda>(g1, g2, g3, g4). (g1, g4)) (findall_fields html)))"
  by (simp add: extract_form_def fold_store_match)

lemma fields_cons:
  "findall_fields html = (n, g2, g3, v) # findall_fields post \<Longrightarrow>
   fields' (extract_form html) = [n \<mapsto> v] ++ fields' (extract_form post)"
  by (simp add: fields_of_matches map_add_def fun_eq_iff split: option.splits)

lemma all_below: "(\<forall>i < (n::nat). P i) \<longleftrightarrow> (\<forall>i \<in> {0..<n}. P i)"
  by auto

text \<open>
  Claim C7. The fields of \<^verbatim>\<open>extract_form\<close> are built from all matches of the
  name and value pattern, a later match replacing an earlier one of the same name:
  where a page holds \<^verbatim>\<open>name="n" value="v"\<close> (also with an \<^verbatim>\<open>id\<close> between the two), with
  no \<^verbatim>\<open>name="\<close> starting before it, the fields are \<^verbatim>\<open>n\<close> with \<^verbatim>\<open>v\<close> together with all
  the fields of the rest of the page. The action is the value of the first
  \<^verbatim>\<open>action="..."\<close> of the page, whatever follows it. On the example page the action
  is \<^verbatim>\<open>https://x/acs\<close> and the fields are \<^verbatim>\<open>SAMLResponse\<close> with \<^verbatim>\<open>abc123\<close>.
\<close>

theorem extract_form_all_fields_first_action:
  "fields' (extract_form html) =
     map_of (rev (map (\<lambda>(g1, g2, g3, g4). (g1, g4)) (findall_fields html))) \<and>
   (\<forall>pre n v post.
      html = pre @ attr_text ''name'' n @ '' '' @ attr_text ''value'' v @ post \<and>
      dquote \<notin> set n \<and> dquote \<notin> set v \<and>
      (\<forall>i < length pre. \<not> startswith (drop i html) (''name='' @ [dquote])) \<longrightarrow>
      fields' (extract_form html) = [n \<mapsto> v] ++ fields' (extract_form post)) \<and>
   (\<forall>pre n d v post.
      html = pre @ attr_text ''name'' n @ '' '' @ attr_text ''id'' d @ '' '' @
        attr_text ''value'' v @ post \<and>
      dquote \<notin> set n \<and> dquote \<notin> set d \<and> dquote \<notin> set v \<and>
      (\<forall>i < length pre. \<not> startswith (drop i html) (''name='' @ [dquote])) \<longrightarrow>
      fields' (extract_form html) = [n \<mapsto> v] ++ fields' (extract_form post)) \<and>
   (\<forall>pre v post.
      html = pre @ attr_text ''action'' v @ post \<and> dquote \<notin> set v \<and>
      (\<forall>i < length pre. \<not> startswith (drop i html) (''action='' @ [dquote])) \<longrightarrow>
      action (extract_form html) = v) \<and>
   action (extract_form example_page) = ''https://x/acs'' \<and>
   fields' (extract_form example_page) = [''SAMLResponse'' \<mapsto> ''abc123'']"
proof (intro conjI allI impI)
  show "fields' (extract_form html) =
     map_of (rev (map (\<lambda>(g1, g2, g3, g4). (g1, g4)) (findall_fields html)))"
    by (rule fields_of_matches)
next
  fix pre n v post
  assume h: "html = pre @ attr_text ''name'' n @ '' '' @ attr_text ''value'' v @ post \<and>
      dquote \<notin> set n \<and> dquote \<notin> set v \<and>
      (\<forall>i < length pre. \<not> startswith (drop i html) (''name='' @ [dquote]))"
  have lit: "''name='' @ [dquote] = ''name'' @ ''='' @ [dquote]" by simp
  from h have "findall_fields html =
      findall_fields (attr_text ''name'' n @ '' '' @ attr_text ''value'' v @ post)"
    using findall_fields_skip [OF lit, of pre] by blast
  also have "\<dots> = (n, [], [], v) # findall_fields post"
    using h by (intro findall_fields_hit match_field_plain) simp_all
  finally show "fields' (extract_form html) = [n \<mapsto> v] ++ fields' (extract_form post)"
    by (rule fields_cons)
next
  fix pre n d v post
  assume h: "html = pre @ attr_text ''name'' n @ '' '' @ attr_text ''id'' d @ '' '' @
        attr_text ''value'' v @ post \<and>
      dquote \<notin> set n \<and> dquote \<notin> set d \<and> dquote \<notin> set v \<and>
      (\<forall>i < length pre. \<not> startswith (drop i html) (''name='' @ [dquote]))"
  have lit: "''name='' @ [dquote] = ''name'' @ ''='' @ [dquote]" by simp
  from h have "findall_fields html =
      findall_fields (attr_text ''name'' n @ '' '' @ attr_text ''id'' d @ '' '' @
        attr_text ''value'' v @ post)"
    using findall_fields_skip [OF lit, of pre] by blast
  also have "\<dots> = (n, attr_text ''id'' d @ '' '', d, v) # findall_fields post"
    using h by (intro findall_fields_hit match_field_with_id) simp_all
  finally show "fields' (extract_form html) = [n \<mapsto> v] ++ fields' (extract_form post)"
    by (rule fields_cons)
next
  fix pre v post
  assume h: "html = pre @ attr_text ''action'' v @ post \<and> dquote \<notin> set v \<and>
      (\<forall>i < length pre. \<not> startswith (drop i html) (''action='' @ [dquote]))"
  have lit: "''action='' @ [dquote] = ''action'' @ ''='' @ [dquote]" by simp
  have shape: "pre @ attr_text ''action'' v @ post =
      pre @ (''action='' @ [dquote]) @ v @ dquote # post"
    by (simp add: attr_text_def)
  from h have "search_action (pre @ (''action='' @ [dquote]) @ v @ dquote # post) = Some v"
    using search_action_first [OF lit, of v pre post] shape by metis
  with h shape show "action (extract_form html) = v"
    by (simp add: extract_form_def)
next
  show "action (extract_form example_page) = ''https://x/acs''"
    by (simp add: extract_form_def example_action)
next
  show "fields' (extract_form example_page) = [''SAMLResponse'' \<mapsto> ''abc123'']"
    by (simp add: fields_of_matches example_matches)
qed

text \<open>The example page, cut at its action and at its field, and a field with an id.\<close>

theorem extract_form_all_fields_first_action_witness:
  "action (extract_form example_page) = ''https://x/acs'' \<and>
   fields' (extract_form example_page) =
     [''SAMLResponse'' \<mapsto> ''abc123''] ++ fields' (extract_form ''/></form>'') \<and>
   fields' (extract_form
      (''<input '' @ attr_text ''name'' ''a'' @ '' '' @ attr_text ''id'' ''b'' @ '' '' @
        attr_text ''value'' ''c'' @ ''>''))
     = [''a'' \<mapsto> ''c''] ++ fields' (extract_form ''>'')"
proof -
  note T = extract_form_all_fields_first_action [where html = example_page]
  note U = extract_form_all_fields_first_action
    [where html = "''<input '' @ attr_text ''name'' ''a'' @ '' '' @ attr_text ''id'' ''b'' @ '' '' @
        attr_text ''value'' ''c'' @ ''>''"]
  have shape_action: "example_page =
      ''<form '' @ attr_text ''action'' ''https://x/acs'' @
      (''><input '' @ attr_text ''name'' ''SAMLResponse'' @ '' '' @
        attr_text ''value'' ''abc123'' @ ''/></form>'')"
    by (simp add: example_page_def attr_text_def dquote_def)
  have shape_field: "example_page =
      (''<form '' @ attr_text ''action'' ''https://x/acs'' @ ''><input '') @
      attr_text ''name'' ''SAMLResponse'' @ '' '' @ attr_text ''value'' ''abc123'' @ ''/></form>''"
    by (simp add: example_page_def attr_text_def dquote_def)
  have "\<forall>i \<in> {0..<length ''<form ''}.
      \<not> startswith (drop i example_page) (''action='' @ [dquote])"
    by code_simp
  then have first_action: "\<forall>i < length ''<form ''.
      \<not> startswith (drop i example_page) (''action='' @ [dquote])"
    by (simp only: all_below)
  have "\<forall>i \<in> {0..<length (''<form '' @ attr_text ''action'' ''https://x/acs'' @ ''><input '')}.
      \<not> startswith (drop i example_page) (''name='' @ [dquote])"
    by code_simp
  then have first_name:
    "\<forall>i < length (''<form '' @ attr_text ''action'' ''https://x/acs'' @ ''><input '').
      \<not> startswith (drop i example_page) (''name='' @ [dquote])"
    by (simp only: all_below)
  have q: "dquote \<notin> set ''https://x/acs''" "dquote \<notin> set ''SAMLResponse''"
    "dquote \<notin> set ''abc123''" "dquote \<notin> set ''a''" "dquote \<notin> set ''b''" "dquote \<notin> set ''c''"
    by (simp_all add: dquote_def)
  have "\<forall>i \<in> {0..<length ''<input ''}.
      \<not> startswith (drop i (''<input '' @ attr_text ''name'' ''a'' @ '' '' @
        attr_text ''id'' ''b'' @ '' '' @ attr_text ''value'' ''c'' @ ''>'')) (''name='' @ [dquote])"
    by code_simp
  then have first_input: "\<forall>i < length ''<input ''.
      \<not> startswith (drop i (''<input '' @ attr_text ''name'' ''a'' @ '' '' @
        attr_text ''id'' ''b'' @ '' '' @ attr_text ''value'' ''c'' @ ''>'')) (''name='' @ [dquote])"
    by (simp only: all_below)
  have "action (extract_form example_page) = ''https://x/acs''"
    using T [THEN conjunct2, THEN conjunct2, THEN conjunct2, THEN conjunct1, rule_format,
        of "''<form ''" "''https://x/acs''"
          "''><input '' @ attr_text ''name'' ''SAMLResponse'' @ '' '' @
            attr_text ''value'' ''abc123'' @ ''/></form>''"]
      shape_action q(1) first_action
    by blast
  moreover have "fields' (extract_form example_page) =
     [''SAMLResponse'' \<mapsto> ''abc123''] ++ fields' (extract_form ''/></form>'')"
    using T [THEN conjunct2, THEN conjunct1, rule_format,
        of "''<form '' @ attr_text ''action'' ''https://x/acs'' @ ''><input ''"
          "''SAMLResponse''" "''abc123''" "''/></form>''"]
      shape_field q(2,3) first_name
    by blast
  moreover have "fields' (extract_form
      (''<input '' @ attr_text ''name'' ''a'' @ '' '' @ attr_text ''id'' ''b'' @ '' '' @
        attr_text ''value'' ''c'' @ ''>''))
     = [''a'' \<mapsto> ''c''] ++ fields' (extract_form ''>'')"
    using U [THEN conjunct2, THEN conjunct2, THEN conjunct1, rule_format,
        of "''<input ''" "''a''" "''b''" "''c''" "''>''"]
      q(4,5,6) first_input
    by blast
  ultimately show ?thesis by blast
qed

subsection \<open>The error page\<close>

lemma greedy_upto_none:
  "lit \<noteq> [] \<Longrightarrow> \<not> str_contains lit s \<Longrightarrow> greedy_upto lit s = None"
  by (induction s) auto

lemma greedy_upto_last:
  assumes "lit \<noteq> []" and "\<not> str_contains lit (tl (lit @ post))"
  shows "LF \<notin> set g \<Longrightarrow> greedy_upto lit (g @ lit @ post) = Some g"
proof (induction g)
  case Nil
  from assms(1) obtain c l where lit: "lit = c # l" by (cases lit) auto
  with assms(2) have "\<not> str_contains lit (l @ post)" by simp
  with assms(1) have "greedy_upto lit (l @ post) = None" by (rule greedy_upto_none)
  moreover have "startswith (c # l @ post) lit"
    using startswith_append [of lit post] lit by simp
  ultimately have "greedy_upto lit (c # l @ post) = Some []" by auto
  then show ?case using lit by simp
next
  case (Cons d g)
  then show ?case by auto
qed

lemma search_h2_step:
  assumes "opn = ''<h2>''" and "cls = ''</h2>''"
  shows "search_h2 (c # cs) =
     (case (case match_lit opn (c # cs) of None \<Rightarrow> None | Some r \<Rightarrow> greedy_upto cls r) of
        Some g \<Rightarrow> Some g
      | None \<Rightarrow> search_h2 cs)"
  unfolding assms by (rule search_h2.simps)

lemma search_h2_first:
  assumes opn: "opn = ''<h2>''" and cls: "cls = ''</h2>''"
    and g: "LF \<notin> set g" and post: "\<not> str_contains cls (tl (cls @ post))"
  shows "\<forall>i < length pre. \<not> startswith (drop i (pre @ opn @ g @ cls @ post)) opn \<Longrightarrow>
    search_h2 (pre @ opn @ g @ cls @ post) = Some g"
proof (induction pre)
  case Nil
  from opn obtain c l where o: "opn = c # l" by simp
  have "cls \<noteq> []" using cls by simp
  then have "greedy_upto cls (g @ cls @ post) = Some g"
    using post g by (rule greedy_upto_last)
  moreover have "match_lit opn (opn @ g @ cls @ post) = Some (g @ cls @ post)"
    by (simp only: match_lit_eq startswith_append if_True) simp
  ultimately have "search_h2 (c # (l @ g @ cls @ post)) = Some g"
    using o by (simp add: search_h2_step [OF opn cls] del: search_h2.simps)
  then show ?case using o by simp
next
  case (Cons c cs)
  have "0 < length (c # cs)" by simp
  with Cons.prems have "\<not> startswith (drop 0 ((c # cs) @ opn @ g @ cls @ post)) opn"
    by blast
  then have "match_lit opn (c # cs @ opn @ g @ cls @ post) = None"
    by (simp add: match_lit_eq)
  moreover have "\<forall>i < length cs. \<not> startswith (drop i (cs @ opn @ g @ cls @ post)) opn"
  proof (intro allI impI)
    fix i assume "i < length cs"
    then have "Suc i < length (c # cs)" by simp
    with Cons.prems have "\<not> startswith (drop (Suc i) ((c # cs) @ opn @ g @ cls @ post)) opn"
      by blast
    then show "\<not> startswith (drop i (cs @ opn @ g @ cls @ post)) opn" by simp
  qed
  with Cons.IH have "search_h2 (cs @ opn @ g @ cls @ post) = Some g" by blast
  ultimately show ?case
    by (simp add: search_h2_step [OF opn cls] del: search_h2.simps)
qed

lemma search_h2_none:
  assumes opn: "opn = ''<h2>''"
  shows "\<not> str_contains opn s \<Longrightarrow> search_h2 s = None"
proof (induction s)
  case Nil
  then show ?case by simp
next
  case (Cons c cs)
  then have "\<not> startswith (c # cs) opn" and "search_h2 cs = None" by simp_all
  then show ?case
    by (simp add: search_h2_step [OF opn refl] match_lit_eq del: search_h2.simps)
qed

lemma splitlines_one:
  "s \<noteq> [] \<Longrightarrow> \<forall>c \<in> set s. \<not> is_linebreak c \<Longrightarrow> splitlines s = [s]"
proof (induction s)
  case Nil
  then show ?case by simp
next
  case (Cons c cs)
  then show ?case by (cases cs) auto
qed

lemma scrape_error_none:
  "\<forall>l \<in> set lines. search_h2 l = None \<Longrightarrow> scrape_error unescape lines error = Inr error"
  by (induction lines arbitrary: error) simp_all

lemma scrape_error_last:
  assumes "search_h2 line = Some g" and "unescape g = Inr m"
    and "\<forall>l \<in> set post. search_h2 l = None"
  shows "\<forall>l \<in> set pre. \<forall>g'. search_h2 l = Some g' \<longrightarrow> (\<exists>m'. unescape g' = Inr m') \<Longrightarrow>
    scrape_error unescape (pre @ line # post) error =
      Inr ([LF] @ replace ''</b>'' [] (replace ''<b>'' [] (replace ''<br/>'' [LF] m)))"
proof (induction pre arbitrary: error)
  case Nil
  show ?case
    using assms by (simp add: bind_simps scrape_error_none Let_def del: replace_from.simps)
next
  case (Cons l pre)
  show ?case
  proof (cases "search_h2 l")
    case None
    with Cons show ?thesis by simp
  next
    case (Some g')
    with Cons.prems obtain m' where "unescape g' = Inr m'" by auto
    with Some Cons show ?thesis
      by (simp add: bind_simps Let_def del: replace_from.simps)
  qed
qed

lemma close_not_later: "\<not> str_contains ''</h2>'' post \<Longrightarrow> \<not> str_contains ''</h2>'' (tl (''</h2>'' @ post))"
  by simp

lemma cleaned_error_message:
  "replace ''</b>'' [] (replace ''<b>'' [] (replace ''<br/>'' [LF] ''Error message'')) = ''Error message''"
  by code_simp

text \<open>
  A page without an action that holds \<^verbatim>\<open><h2>Error message</h2>\<close> and, on a later
  line, a second heading: the loop over the lines keeps the last heading it finds, so
  the text scraped is that of the second heading.
\<close>

theorem later_heading_replaces_error_message:
  "str_contains ''<h2>Error message</h2>''
     (''<h2>Error message</h2>'' @ [LF] @ ''<h2>Session expired</h2>'') \<and>
   action (extract_form (''<h2>Error message</h2>'' @ [LF] @ ''<h2>Session expired</h2>'')) = [] \<and>
   get_saml_token unchanged no_decoding
     (reply 200 (''<h2>Error message</h2>'' @ [LF] @ ''<h2>Session expired</h2>''))
     ''https://lastpass.com'' ''42''
   = Inl (ValueError (''Unable to find SAML ACS'' @ [LF] @ ''Session expired''))"
proof (intro conjI)
  show "str_contains ''<h2>Error message</h2>''
       (''<h2>Error message</h2>'' @ [LF] @ ''<h2>Session expired</h2>'')"
    by code_simp
  show a: "action (extract_form (''<h2>Error message</h2>'' @ [LF] @ ''<h2>Session expired</h2>'')) = []"
    by code_simp
  have l: "splitlines (''<h2>Error message</h2>'' @ [LF] @ ''<h2>Session expired</h2>'') =
      [''<h2>Error message</h2>'', ''<h2>Session expired</h2>'']"
    by code_simp
  have s: "scrape_error unchanged [''<h2>Error message</h2>'', ''<h2>Session expired</h2>''] [] =
      Inr ([LF] @ ''Session expired'')"
    by code_simp
  show "get_saml_token unchanged no_decoding
     (reply 200 (''<h2>Error message</h2>'' @ [LF] @ ''<h2>Session expired</h2>''))
     ''https://lastpass.com'' ''42''
   = Inl (ValueError (''Unable to find SAML ACS'' @ [LF] @ ''Session expired''))"
    using a l s
    by (simp add: get_saml_token_def reply_def bind_simps
        del: splitlines.simps scrape_error.simps)
qed

text \<open>
  Claim C8, as the code has it. On a page in which \<^verbatim>\<open>action="\<close> does not occur,
  \<^verbatim>\<open>extract_form\<close> returns the empty action. With an empty action \<^verbatim>\<open>get_saml_token\<close>
  raises \<^verbatim>\<open>ValueError\<close> with the text \<^verbatim>\<open>Unable to find SAML ACS\<close> followed by what it
  scraped: nothing when no line of the page matches \<^verbatim>\<open><h2>(.*)</h2>\<close>; otherwise, for
  the last line that matches, a line feed and the group, unescaped, with \<^verbatim>\<open><br/>\<close>
  replaced by a line feed and \<^verbatim>\<open><b>\<close> and \<^verbatim>\<open></b>\<close> removed (the headings before it
  must have been unescaped without an error). The group runs from the first
  \<^verbatim>\<open><h2>\<close> of the line to its last \<^verbatim>\<open></h2>\<close>. So on a page of one line that holds
  \<^verbatim>\<open><h2>Error message</h2>\<close>, with no \<^verbatim>\<open><h2>\<close> before it and no \<^verbatim>\<open></h2>\<close> after it,
  and with \<^verbatim>\<open>unescape\<close> leaving the words as they are, the text scraped is a line
  feed and \<^verbatim>\<open>Error message\<close>.
\<close>

theorem extract_form_no_action_and_scraped_error:
  "(\<not> str_contains (''action='' @ [dquote]) html \<longrightarrow> action (extract_form html) = []) \<and>
   (body (session (saml_request lastpass_server saml_cfg_id)) = html \<and>
      action (extract_form html) = [] \<longrightarrow>
      get_saml_token unescape b64decode session lastpass_server saml_cfg_id =
        bind (scrape_error unescape (splitlines html) [])
          (\<lambda>error. Inl (ValueError (''Unable to find SAML ACS'' @ error)))) \<and>
   ((\<forall>l \<in> set lines. search_h2 l = None) \<longrightarrow> scrape_error unescape lines error = Inr error) \<and>
   (\<forall>pre line post g m.
      lines = pre @ line # post \<and> search_h2 line = Some g \<and> unescape g = Inr m \<and>
      (\<forall>l \<in> set post. search_h2 l = None) \<and>
      (\<forall>l \<in> set pre. \<forall>g'. search_h2 l = Some g' \<longrightarrow> (\<exists>m'. unescape g' = Inr m')) \<longrightarrow>
      scrape_error unescape lines error =
        Inr ([LF] @ replace ''</b>'' [] (replace ''<b>'' [] (replace ''<br/>'' [LF] m)))) \<and>
   (\<forall>pre g post.
      html = pre @ ''<h2>'' @ g @ ''</h2>'' @ post \<and> LF \<notin> set g \<and>
      \<not> str_contains ''</h2>'' post \<and>
      (\<forall>i < length pre. \<not> startswith (drop i html) ''<h2>'') \<longrightarrow>
      search_h2 html = Some g) \<and>
   (\<forall>pre post.
      body (session (saml_request lastpass_server saml_cfg_id)) = html \<and>
      html = pre @ ''<h2>Error message</h2>'' @ post \<and>
      \<not> str_contains (''action='' @ [dquote]) html \<and>
      (\<forall>c \<in> set html. \<not> is_linebreak c) \<and>
      \<not> str_contains ''</h2>'' post \<and>
      (\<forall>i < length pre. \<not> startswith (drop i html) ''<h2>'') \<and>
      unescape ''Error message'' = Inr ''Error message'' \<longrightarrow>
      get_saml_token unescape b64decode session lastpass_server saml_cfg_id =
        Inl (ValueError (''Unable to find SAML ACS'' @ [LF] @ ''Error message'')))"
proof -
  have lit: "''action='' @ [dquote] = ''action'' @ ''='' @ [dquote]" by simp
  have no_action: "action (extract_form h) = []" if "\<not> str_contains (''action='' @ [dquote]) h" for h
    using search_action_none [OF lit, of h] that by (simp add: extract_form_def)
  have failure: "get_saml_token unescape b64decode session lastpass_server saml_cfg_id =
        bind (scrape_error unescape (splitlines h) [])
          (\<lambda>error. Inl (ValueError (''Unable to find SAML ACS'' @ error)))"
    if "body (session (saml_request lastpass_server saml_cfg_id)) = h"
      and "action (extract_form h) = []" for h
    using that by (simp add: get_saml_token_def Let_def)
  have heading: "search_h2 h = Some g"
    if "h = pre @ ''<h2>'' @ g @ ''</h2>'' @ post" and "LF \<notin> set g"
      and "\<not> str_contains ''</h2>'' post"
      and "\<forall>i < length pre. \<not> startswith (drop i h) ''<h2>''" for h pre g post
    using search_h2_first [OF refl refl that(2) close_not_later [OF that(3)], of pre] that(1,4)
    by simp
  have example: "get_saml_token unescape b64decode session lastpass_server saml_cfg_id =
        Inl (ValueError (''Unable to find SAML ACS'' @ [LF] @ ''Error message''))"
    if b: "body (session (saml_request lastpass_server saml_cfg_id)) = h"
      and h: "h = pre @ ''<h2>Error message</h2>'' @ post"
      and a: "\<not> str_contains (''action='' @ [dquote]) h"
      and one: "\<forall>c \<in> set h. \<not> is_linebreak c"
      and p: "\<not> str_contains ''</h2>'' post"
      and first: "\<forall>i < length pre. \<not> startswith (drop i h) ''<h2>''"
      and u: "unescape ''Error message'' = Inr ''Error message''" for h pre post
  proof -
    have shape: "h = pre @ ''<h2>'' @ ''Error message'' @ ''</h2>'' @ post"
      using h by simp
    have nolf: "LF \<notin> set ''Error message''" by (simp add: LF_def)
    from shape nolf p first have found: "search_h2 h = Some ''Error message''"
      by (rule heading)
    have "h \<noteq> []" using h by simp
    then have lines: "splitlines h = [h]" using one by (rule splitlines_one)
    have "scrape_error unescape ([] @ h # []) [] =
        Inr ([LF] @ replace ''</b>'' [] (replace ''<b>'' [] (replace ''<br/>'' [LF] ''Error message'')))"
      using found u by (intro scrape_error_last) simp_all
    then have "scrape_error unescape (splitlines h) [] = Inr ([LF] @ ''Error message'')"
      by (simp only: lines cleaned_error_message append_Nil)
    with failure [OF b no_action [OF a]] show ?thesis
      by (simp add: bind_simps)
  qed
  show ?thesis
  proof (intro conjI allI impI)
    assume "\<not> str_contains (''action='' @ [dquote]) html"
    then show "action (extract_form html) = []" by (rule no_action)
  next
    assume "body (session (saml_request lastpass_server saml_cfg_id)) = html \<and>
      action (extract_form html) = []"
    then show "get_saml_token unescape b64decode session lastpass_server saml_cfg_id =
        bind (scrape_error unescape (splitlines html) [])
          (\<lambda>error. Inl (ValueError (''Unable to find SAML ACS'' @ error)))"
      using failure by blast
  next
    assume "\<forall>l \<in> set lines. search_h2 l = None"
    then show "scrape_error unescape lines error = Inr error"
      by (rule scrape_error_none)
  next
    fix pre line post g m
    assume h: "lines = pre @ line # post \<and> search_h2 line = Some g \<and> unescape g = Inr m \<and>
      (\<forall>l \<in> set post. search_h2 l = None) \<and>
      (\<forall>l \<in> set pre. \<forall>g'. search_h2 l = Some g' \<longrightarrow> (\<exists>m'. unescape g' = Inr m'))"
    then have "scrape_error unescape (pre @ line # post) error =
        Inr ([LF] @ replace ''</b>'' [] (replace ''<b>'' [] (replace ''<br/>'' [LF] m)))"
      by (intro scrape_error_last) blast+
    with h show "scrape_error unescape lines error =
        Inr ([LF] @ replace ''</b>'' [] (replace ''<b>'' [] (replace ''<br/>'' [LF] m)))"
      by simp
  next
    fix pre g post
    assume "html = pre @ ''<h2>'' @ g @ ''</h2>'' @ post \<and> LF \<notin> set g \<and>
      \<not> str_contains ''</h2>'' post \<and>
      (\<forall>i < length pre. \<not> startswith (drop i html) ''<h2>'')"
    then show "search_h2 html = Some g"
      using heading [of html pre g post] by blast
  next
    fix pre post
    assume "body (session (saml_request lastpass_server saml_cfg_id)) = html \<and>
      html = pre @ ''<h2>Error message</h2>'' @ post \<and>
      \<not> str_contains (''action='' @ [dquote]) html \<and>
      (\<forall>c \<in> set html. \<not> is_linebreak c) \<and>
      \<not> str_contains ''</h2>'' post \<and>
      (\<forall>i < length pre. \<not> startswith (drop i html) ''<h2>'') \<and>
      unescape ''Error message'' = Inr ''Error message''"
    then show "get_saml_token unescape b64decode session lastpass_server saml_cfg_id =
        Inl (ValueError (''Unable to find SAML ACS'' @ [LF] @ ''Error message''))"
      using example [of html pre post] by blast
  qed
qed

text \<open>An error page of one line.\<close>

theorem extract_form_no_action_and_scraped_error_witness:
  "action (extract_form ''<html><h2>Error message</h2></html>'') = [] \<and>
   search_h2 ''<html><h2>Error message</h2></html>'' = Some ''Error message'' \<and>
   get_saml_token unchanged no_decoding (reply 200 ''<html><h2>Error message</h2></html>'')
     ''https://lastpass.com'' ''42''
   = Inl (ValueError (''Unable to find SAML ACS'' @ [LF] @ ''Error message''))"
proof -
  note T = extract_form_no_action_and_scraped_error
    [where html = "''<html><h2>Error message</h2></html>''"
      and session = "reply 200 ''<html><h2>Error message</h2></html>''"
      and unescape = unchanged and b64decode = no_decoding
      and lastpass_server = "''https://lastpass.com''" and saml_cfg_id = "''42''"]
  have no_action: "\<not> str_contains (''action='' @ [dquote]) ''<html><h2>Error message</h2></html>''"
    by code_simp
  have one_line: "\<forall>c \<in> set ''<html><h2>Error message</h2></html>''. \<not> is_linebreak c"
    by code_simp
  have no_close: "\<not> str_contains ''</h2>'' ''</html>''"
    by code_simp
  have "\<forall>i \<in> {0..<length ''<html>''}.
      \<not> startswith (drop i ''<html><h2>Error message</h2></html>'') ''<h2>''"
    by code_simp
  then have first: "\<forall>i < length ''<html>''.
      \<not> startswith (drop i ''<html><h2>Error message</h2></html>'') ''<h2>''"
    by (simp only: all_below)
  have shape: "''<html><h2>Error message</h2></html>'' =
      ''<html>'' @ ''<h2>'' @ ''Error message'' @ ''</h2>'' @ ''</html>''"
    by simp
  have nolf: "LF \<notin> set ''Error message''" by (simp add: LF_def)
  have "action (extract_form ''<html><h2>Error message</h2></html>'') = []"
    using T [THEN conjunct1] no_action by blast
  moreover have "search_h2 ''<html><h2>Error message</h2></html>'' = Some ''Error message''"
    using T [THEN conjunct2, THEN conjunct2, THEN conjunct2, THEN conjunct2, THEN conjunct1,
        rule_format, of "''<html>''" "''Error message''" "''</html>''"]
      shape nolf no_close first
    by blast
  moreover have "get_saml_token unchanged no_decoding
     (reply 200 ''<html><h2>Error message</h2></html>'') ''https://lastpass.com'' ''42''
   = Inl (ValueError (''Unable to find SAML ACS'' @ [LF] @ ''Error message''))"
    using T [THEN conjunct2, THEN conjunct2, THEN conjunct2, THEN conjunct2, THEN conjunct2,
        rule_format, of "''<html>''" "''</html>''"]
      no_action one_line no_close first
    by (simp add: reply_def unchanged_def)
  ultimately show ?thesis by blast
qed

end
